theory Spec2Isabelle
  imports Complex_Main "HOL-Library.Word"
begin

section \<open>Rate limiter: \<^verbatim>\<open>system-build/src/lib/rate-limit.ts\<close>\<close>

text \<open>
  JavaScript numbers that hold counts, seconds and millisecond timestamps are integers far
  below \<open>2^53\<close>, so they are modelled as \<open>int\<close>. \<^verbatim>\<open>Date.now()\<close> and
  \<^verbatim>\<open>Math.random()\<close> are inputs of each call. Console output is not part of the model.
\<close>

datatype RateLimitPreset = INTAKE | AUTH | ADMIN | API

record rate_config =
  window :: int
  max_requests :: int
  fallbackMax :: int

text \<open>The table \<^verbatim>\<open>RATE_LIMITS\<close>; the field \<^verbatim>\<open>max\<close> is \<open>max_requests\<close> here.\<close>

fun RATE_LIMITS :: "RateLimitPreset \<Rightarrow> rate_config" where
  "RATE_LIMITS INTAKE = \<lparr>window = 60, max_requests = 10, fallbackMax = 5\<rparr>"
| "RATE_LIMITS AUTH = \<lparr>window = 60, max_requests = 5, fallbackMax = 3\<rparr>"
| "RATE_LIMITS ADMIN = \<lparr>window = 60, max_requests = 20, fallbackMax = 10\<rparr>"
| "RATE_LIMITS API = \<lparr>window = 60, max_requests = 30, fallbackMax = 15\<rparr>"

text \<open>\<^verbatim>\<open>preset.toLowerCase()\<close> on the four preset names.\<close>

fun preset_toLowerCase :: "RateLimitPreset \<Rightarrow> string" where
  "preset_toLowerCase INTAKE = ''intake''"
| "preset_toLowerCase AUTH = ''auth''"
| "preset_toLowerCase ADMIN = ''admin''"
| "preset_toLowerCase API = ''api''"

record rl_entry =
  count :: int
  entry_resetAt :: int

text \<open>The module-level \<^verbatim>\<open>inMemoryRateLimits\<close> map, passed in and returned.\<close>

type_synonym rl_store = "string \<rightharpoonup> rl_entry"

record rl_result =
  allowed :: bool
  remaining :: int
  resetAt :: int

text \<open>The clean-up loop of \<^verbatim>\<open>checkInMemoryRateLimit\<close>: every expired entry is deleted.\<close>

definition sweep_expired :: "int \<Rightarrow> rl_store \<Rightarrow> rl_store" where
  "sweep_expired now m =
     (\<lambda>k. case m k of
            None \<Rightarrow> None
          | Some v \<Rightarrow> if now > entry_resetAt v then None else Some v)"

text \<open>
  \<^verbatim>\<open>checkInMemoryRateLimit(key, windowSeconds, maxRequests)\<close>. The entry is read before
  the clean-up runs, as in the source; \<^verbatim>\<open>entry.count++\<close> mutates the object held by the
  map, which the clean-up has kept because it is not expired.
\<close>

definition checkInMemoryRateLimit ::
  "string \<Rightarrow> int \<Rightarrow> int \<Rightarrow> int \<Rightarrow> real \<Rightarrow> rl_store \<Rightarrow> rl_result \<times> rl_store" where
  "checkInMemoryRateLimit key windowSeconds maxRequests now rnd m =
     (let entry = m key;
          m1 = (if rnd < 0.01 then sweep_expired now m else m);
          fresh = (let r = now + windowSeconds * 1000
                   in (\<lparr>allowed = True, remaining = maxRequests - 1, resetAt = r\<rparr>,
                       m1(key \<mapsto> \<lparr>count = 1, entry_resetAt = r\<rparr>)))
      in case entry of
           None \<Rightarrow> fresh
         | Some e \<Rightarrow>
             if now > entry_resetAt e then fresh
             else (let c = count e + 1
                   in (\<lparr>allowed = (c \<le> maxRequests),
                        remaining = max 0 (maxRequests - c),
                        resetAt = entry_resetAt e\<rparr>,
                       m1(key \<mapsto> e\<lparr>count := c\<rparr>))))"

text \<open>
  The durable store is reached through \<^verbatim>\<open>fetch\<close>. One call either throws (network
  failure, or a body that is not JSON), answers with a non-OK status, or answers with a
  JSON \<^verbatim>\<open>result\<close>. The three commands the limiter sends are a datatype; the results it
  reads are a number or \<^verbatim>\<open>null\<close>.
\<close>

datatype redis_cmd = INCR string | EXPIRE string int | TTL string

datatype jsval = JNull | JNum int

datatype fetch_reply = FetchThrows | NotOk | Result jsval

text \<open>The store: what it answers to a command at a time, and its next state.\<close>

type_synonym 'r upstash = "int \<Rightarrow> redis_cmd \<Rightarrow> 'r \<Rightarrow> fetch_reply \<times> 'r"

record upstash_env =
  UPSTASH_REDIS_REST_URL :: "string option"
  UPSTASH_REDIS_REST_TOKEN :: "string option"

text \<open>JavaScript truthiness of an optional string: present and not empty.\<close>

fun truthy :: "'a list option \<Rightarrow> bool" where
  "truthy None = False"
| "truthy (Some s) = (s \<noteq> [])"

definition redis_configured :: "upstash_env \<Rightarrow> bool" where
  "redis_configured env =
     (truthy (UPSTASH_REDIS_REST_URL env) \<and> truthy (UPSTASH_REDIS_REST_TOKEN env))"

text \<open>
  \<^verbatim>\<open>redisCommand\<close>: \<open>Inl ()\<close> is the exception of \<^verbatim>\<open>fetch\<close> passing through; a
  non-OK response is logged and becomes \<^verbatim>\<open>null\<close>.
\<close>

definition redisCommand ::
  "upstash_env \<Rightarrow> 'r upstash \<Rightarrow> int \<Rightarrow> redis_cmd \<Rightarrow> 'r \<Rightarrow> (unit + jsval) \<times> 'r" where
  "redisCommand env store now cmd r =
     (if \<not> redis_configured env then (Inr JNull, r)
      else case store now cmd r of
             (FetchThrows, r') \<Rightarrow> (Inl (), r')
           | (NotOk, r') \<Rightarrow> (Inr JNull, r')
           | (Result v, r') \<Rightarrow> (Inr v, r'))"

text \<open>JavaScript \<^verbatim>\<open>ToNumber\<close> on the values read: \<^verbatim>\<open>null\<close> is 0.\<close>

fun toNumber :: "jsval \<Rightarrow> int" where
  "toNumber JNull = 0"
| "toNumber (JNum n) = n"

text \<open>
  \<^verbatim>\<open>checkRateLimit(identifier, preset, namespace)\<close>. The key uses the namespace when it
  is a non-empty string and the lower-cased preset name otherwise. Any exception inside
  the \<^verbatim>\<open>try\<close> block ends in the in-memory limiter with \<^verbatim>\<open>fallbackMax\<close>.
\<close>

definition rate_limit_key :: "string \<Rightarrow> RateLimitPreset \<Rightarrow> string option \<Rightarrow> string" where
  "rate_limit_key identifier preset namespace =
     (if truthy namespace then ''rate_limit:'' @ the namespace @ '':'' @ identifier
      else ''rate_limit:'' @ preset_toLowerCase preset @ '':'' @ identifier)"

definition checkRateLimit ::
  "upstash_env \<Rightarrow> 'r upstash \<Rightarrow> string \<Rightarrow> RateLimitPreset \<Rightarrow> string option \<Rightarrow>
   int \<Rightarrow> real \<Rightarrow> rl_store \<times> 'r \<Rightarrow> rl_result \<times> rl_store \<times> 'r" where
  "checkRateLimit env store identifier preset namespace now rnd s =
     (let config = RATE_LIMITS preset;
          key = rate_limit_key identifier preset namespace;
          m = fst s; r = snd s;
          fallback = (\<lambda>r'. let (res, m') =
                               checkInMemoryRateLimit key (window config) (fallbackMax config) now rnd m
                             in (res, m', r'))
      in if \<not> redis_configured env then fallback r
         else case redisCommand env store now (INCR key) r of
           (Inl _, r1) \<Rightarrow> fallback r1
         | (Inr cnt, r1) \<Rightarrow>
            (case (if cnt = JNum 1
                   then redisCommand env store now (EXPIRE key (window config)) r1
                   else (Inr JNull, r1)) of
               (Inl _, r2) \<Rightarrow> fallback r2
             | (Inr _, r2) \<Rightarrow>
                (case redisCommand env store now (TTL key) r2 of
                   (Inl _, r3) \<Rightarrow> fallback r3
                 | (Inr ttl, r3) \<Rightarrow>
                     (\<lparr>allowed = (toNumber cnt \<le> max_requests config),
                       remaining = max 0 (max_requests config - toNumber cnt),
                       resetAt = now + (if toNumber ttl > 0 then toNumber ttl * 1000
                                        else window config * 1000)\<rparr>,
                      m, r3))))"

text \<open>
  A run of calls of \<^verbatim>\<open>checkRateLimit\<close> for one identifier, preset and namespace, each
  with its own clock reading and random draw; the answers' \<^verbatim>\<open>allowed\<close> flags in order.
\<close>

fun checkRateLimit_seq ::
  "upstash_env \<Rightarrow> 'r upstash \<Rightarrow> string \<Rightarrow> RateLimitPreset \<Rightarrow> string option \<Rightarrow>
   (int \<times> real) list \<Rightarrow> rl_store \<times> 'r \<Rightarrow> bool list \<times> rl_store \<times> 'r" where
  "checkRateLimit_seq env store identifier preset namespace [] s = ([], s)"
| "checkRateLimit_seq env store identifier preset namespace (c # cs) s =
     (let (res, s1) = checkRateLimit env store identifier preset namespace (fst c) (snd c) s;
          (bs, s2) = checkRateLimit_seq env store identifier preset namespace cs s1
      in (allowed res # bs, s2))"

text \<open>
  The durable store the limiter talks to, as Redis defines the three commands: a key
  whose expiry time has been reached is gone; \<^verbatim>\<open>INCR\<close> creates a missing key at 1 without
  expiry; \<^verbatim>\<open>EXPIRE\<close> sets the expiry of a live key; \<^verbatim>\<open>TTL\<close> answers the seconds left,
  -1 without expiry and -2 for a missing key.
\<close>

record redis_entry =
  val :: int
  expireAt :: "int option"

type_synonym redis_state = "string \<rightharpoonup> redis_entry"

definition redis_live :: "int \<Rightarrow> redis_state \<Rightarrow> string \<Rightarrow> redis_entry option" where
  "redis_live now r k =
     (case r k of
        None \<Rightarrow> None
      | Some e \<Rightarrow> (case expireAt e of
                    None \<Rightarrow> Some e
                  | Some x \<Rightarrow> if x \<le> now then None else Some e))"

fun redis_store :: "redis_state upstash" where
  "redis_store now (INCR k) r =
     (case redis_live now r k of
        None \<Rightarrow> (Result (JNum 1), r(k \<mapsto> \<lparr>val = 1, expireAt = None\<rparr>))
      | Some e \<Rightarrow> (Result (JNum (val e + 1)), r(k \<mapsto> e\<lparr>val := val e + 1\<rparr>)))"
| "redis_store now (EXPIRE k secs) r =
     (case redis_live now r k of
        None \<Rightarrow> (Result (JNum 0), r)
      | Some e \<Rightarrow> (Result (JNum 1), r(k \<mapsto> e\<lparr>expireAt := Some (now + secs * 1000)\<rparr>)))"
| "redis_store now (TTL k) r =
     (case redis_live now r k of
        None \<Rightarrow> (Result (JNum (- 2)), r)
      | Some e \<Rightarrow> (case expireAt e of
                    None \<Rightarrow> (Result (JNum (- 1)), r)
                  | Some x \<Rightarrow> (Result (JNum ((x - now + 500) div 1000)), r)))"

text \<open>
  Two ways a store is out of service. No connection: every \<^verbatim>\<open>fetch\<close> throws. Down behind
  its REST endpoint: every command is answered, with a non-OK status.
\<close>

definition throwing_store :: "'r upstash" where
  "throwing_store now cmd r = (FetchThrows, r)"

definition not_ok_store :: "'r upstash" where
  "not_ok_store now cmd r = (NotOk, r)"

text \<open>
  The per-window maximum in force: \<^verbatim>\<open>max\<close> on the durable path, \<^verbatim>\<open>fallbackMax\<close> on the
  in-memory path.
\<close>

definition effective_max :: "upstash_env \<Rightarrow> RateLimitPreset \<Rightarrow> int" where
  "effective_max env preset =
     (if redis_configured env then max_requests (RATE_LIMITS preset)
      else fallbackMax (RATE_LIMITS preset))"

text \<open>No window is open for the key at time \<open>now\<close>, in the store the path in force uses.\<close>

definition no_open_window ::
  "upstash_env \<Rightarrow> string \<Rightarrow> int \<Rightarrow> rl_store \<times> redis_state \<Rightarrow> bool" where
  "no_open_window env key now s =
     (if redis_configured env then redis_live now (snd s) key = None
      else (case fst s key of None \<Rightarrow> True | Some e \<Rightarrow> now > entry_resetAt e))"

text \<open>
  The situations in which the code runs the in-memory limiter: the credentials are not
  configured (the early return of \<^verbatim>\<open>checkRateLimit\<close>), or \<^verbatim>\<open>fetch\<close> throws (its \<^verbatim>\<open>catch\<close>
  block). A store that answers with a non-OK status is not among them: \<^verbatim>\<open>redisCommand\<close>
  returns \<^verbatim>\<open>null\<close> for it and nothing is thrown.
\<close>

definition runs_in_memory_limiter :: "upstash_env \<Rightarrow> 'r upstash \<Rightarrow> bool" where
  "runs_in_memory_limiter env store =
     (\<not> redis_configured env \<or> (\<forall>t c r. fst (store t c r) = FetchThrows))"

text \<open>Two deployments used in the examples: without and with store credentials.\<close>

definition env_unconfigured :: upstash_env where
  "env_unconfigured = \<lparr>UPSTASH_REDIS_REST_URL = None, UPSTASH_REDIS_REST_TOKEN = None\<rparr>"

definition env_configured :: upstash_env where
  "env_configured =
     \<lparr>UPSTASH_REDIS_REST_URL = Some ''https://store.example'', UPSTASH_REDIS_REST_TOKEN = Some ''token''\<rparr>"

section \<open>Field-level encryption: \<^verbatim>\<open>system-build/src/lib/encryption.ts\<close>\<close>

text \<open>
  A JavaScript string is a sequence of 16-bit code units; a \<^verbatim>\<open>Buffer\<close> is a sequence of
  bytes. The module turns one into the other with the \<^verbatim>\<open>'utf8'\<close> encoding, so the two
  are kept apart here.
\<close>

type_synonym byte = "8 word"
type_synonym js_string = "16 word list"

definition IV_LENGTH :: nat where "IV_LENGTH = 12"
definition AUTH_TAG_LENGTH :: nat where "AUTH_TAG_LENGTH = 16"
definition SALT_LENGTH :: nat where "SALT_LENGTH = 16"

subsection \<open>The \<^verbatim>\<open>'utf8'\<close> encoding of the platform\<close>

text \<open>
  Writing a string as UTF-8 (\<^verbatim>\<open>cipher.update(plaintext, 'utf8')\<close>): a high surrogate
  followed by a low surrogate is one code point of four bytes, a surrogate without its
  partner is written as U+FFFD (\<^verbatim>\<open>EF BF BD\<close>), every other code unit is a code point of
  one to three bytes.
\<close>

definition is_high_surrogate :: "16 word \<Rightarrow> bool" where
  "is_high_surrogate u = (0xD800 \<le> unat u \<and> unat u \<le> 0xDBFF)"

definition is_low_surrogate :: "16 word \<Rightarrow> bool" where
  "is_low_surrogate u = (0xDC00 \<le> unat u \<and> unat u \<le> 0xDFFF)"

definition is_surrogate :: "16 word \<Rightarrow> bool" where
  "is_surrogate u = (0xD800 \<le> unat u \<and> unat u \<le> 0xDFFF)"

definition utf8_of_code_point :: "nat \<Rightarrow> byte list" where
  "utf8_of_code_point cp =
     (if cp < 0x80 then [of_nat cp]
      else if cp < 0x800 then [of_nat (0xC0 + cp div 64), of_nat (0x80 + cp mod 64)]
      else if cp < 0x10000 then
        [of_nat (0xE0 + cp div 4096), of_nat (0x80 + cp div 64 mod 64), of_nat (0x80 + cp mod 64)]
      else
        [of_nat (0xF0 + cp div 262144), of_nat (0x80 + cp div 4096 mod 64),
         of_nat (0x80 + cp div 64 mod 64), of_nat (0x80 + cp mod 64)])"

definition surrogate_pair_code_point :: "16 word \<Rightarrow> 16 word \<Rightarrow> nat" where
  "surrogate_pair_code_point hi lo = 0x10000 + (unat hi - 0xD800) * 0x400 + (unat lo - 0xDC00)"

fun utf8_encode :: "js_string \<Rightarrow> byte list" where
  "utf8_encode [] = []"
| "utf8_encode [u] =
     (if is_surrogate u then [0xEF, 0xBF, 0xBD] else utf8_of_code_point (unat u))"
| "utf8_encode (u # v # rest) =
     (if is_high_surrogate u \<and> is_low_surrogate v
      then utf8_of_code_point (surrogate_pair_code_point u v) @ utf8_encode rest
      else if is_surrogate u then [0xEF, 0xBF, 0xBD] @ utf8_encode (v # rest)
      else utf8_of_code_point (unat u) @ utf8_encode (v # rest))"

text \<open>
  Reading UTF-8 back (\<^verbatim>\<open>decrypted.toString('utf8')\<close>): a well-formed sequence becomes
  its code point, written as one code unit or as a surrogate pair; a byte that cannot
  start or continue a well-formed sequence ends the sequence read so far, which becomes
  U+FFFD. The lead bytes \<^verbatim>\<open>E0\<close>, \<^verbatim>\<open>ED\<close>, \<^verbatim>\<open>F0\<close> and \<^verbatim>\<open>F4\<close> restrict their first
  continuation byte (no overlong forms, no surrogates, nothing above U+10FFFF).
\<close>

definition is_continuation :: "byte \<Rightarrow> bool" where
  "is_continuation b = (0x80 \<le> unat b \<and> unat b \<le> 0xBF)"

definition second_byte_ok :: "byte \<Rightarrow> byte \<Rightarrow> bool" where
  "second_byte_ok b0 b1 =
     (if unat b0 = 0xE0 then 0xA0 \<le> unat b1 \<and> unat b1 \<le> 0xBF
      else if unat b0 = 0xED then 0x80 \<le> unat b1 \<and> unat b1 \<le> 0x9F
      else if unat b0 = 0xF0 then 0x90 \<le> unat b1 \<and> unat b1 \<le> 0xBF
      else if unat b0 = 0xF4 then 0x80 \<le> unat b1 \<and> unat b1 \<le> 0x8F
      else is_continuation b1)"

definition utf16_of_code_point :: "nat \<Rightarrow> js_string" where
  "utf16_of_code_point cp =
     (if cp < 0x10000 then [of_nat cp]
      else [of_nat (0xD800 + (cp - 0x10000) div 0x400), of_nat (0xDC00 + (cp - 0x10000) mod 0x400)])"

definition REPLACEMENT :: "16 word" where
  "REPLACEMENT = 0xFFFD"

fun utf8_decode :: "byte list \<Rightarrow> js_string" where
  "utf8_decode [] = []"
| "utf8_decode (b0 # rest) =
     (if unat b0 < 0x80 then of_nat (unat b0) # utf8_decode rest
      else if 0xC2 \<le> unat b0 \<and> unat b0 \<le> 0xDF then
        (case rest of
           [] \<Rightarrow> [REPLACEMENT]
         | b1 # r1 \<Rightarrow>
             if is_continuation b1
             then utf16_of_code_point ((unat b0 - 0xC0) * 64 + (unat b1 - 0x80)) @ utf8_decode r1
             else REPLACEMENT # utf8_decode rest)
      else if 0xE0 \<le> unat b0 \<and> unat b0 \<le> 0xEF then
        (case rest of
           [] \<Rightarrow> [REPLACEMENT]
         | b1 # r1 \<Rightarrow>
             if second_byte_ok b0 b1 then
               (case r1 of
                  [] \<Rightarrow> [REPLACEMENT]
                | b2 # r2 \<Rightarrow>
                    if is_continuation b2
                    then utf16_of_code_point
                           ((unat b0 - 0xE0) * 4096 + (unat b1 - 0x80) * 64 + (unat b2 - 0x80))
                         @ utf8_decode r2
                    else REPLACEMENT # utf8_decode r1)
             else REPLACEMENT # utf8_decode rest)
      else if 0xF0 \<le> unat b0 \<and> unat b0 \<le> 0xF4 then
        (case rest of
           [] \<Rightarrow> [REPLACEMENT]
         | b1 # r1 \<Rightarrow>
             if second_byte_ok b0 b1 then
               (case r1 of
                  [] \<Rightarrow> [REPLACEMENT]
                | b2 # r2 \<Rightarrow>
                    if is_continuation b2 then
                      (case r2 of
                         [] \<Rightarrow> [REPLACEMENT]
                       | b3 # r3 \<Rightarrow>
                           if is_continuation b3
                           then utf16_of_code_point
                                  ((unat b0 - 0xF0) * 262144 + (unat b1 - 0x80) * 4096
                                   + (unat b2 - 0x80) * 64 + (unat b3 - 0x80))
                                @ utf8_decode r3
                           else REPLACEMENT # utf8_decode r2)
                    else REPLACEMENT # utf8_decode r1)
             else REPLACEMENT # utf8_decode rest)
      else REPLACEMENT # utf8_decode rest)"

text \<open>A string every surrogate of which stands in a high-low pair.\<close>

fun well_formed_utf16 :: "js_string \<Rightarrow> bool" where
  "well_formed_utf16 [] = True"
| "well_formed_utf16 [u] = (\<not> is_surrogate u)"
| "well_formed_utf16 (u # v # rest) =
     (if is_high_surrogate u \<and> is_low_surrogate v then well_formed_utf16 rest
      else \<not> is_surrogate u \<and> well_formed_utf16 (v # rest))"

subsection \<open>The cryptographic primitives of the platform\<close>

text \<open>
  The module calls Node's \<^verbatim>\<open>crypto\<close> and \<^verbatim>\<open>Buffer\<close>. They are parameters of the model:
  \<^item> \<open>base64_decode\<close> is \<^verbatim>\<open>Buffer.from(s, 'base64')\<close>, which never throws;
  \<^item> \<open>base64_encode\<close> is \<^verbatim>\<open>buf.toString('base64')\<close>;
  \<^item> \<open>hkdf key salt\<close> is \<^verbatim>\<open>hkdfSync('sha256', key, salt, 'aes-256-gcm', 32)\<close>;
  \<^item> \<open>gcm_seal key iv plaintext\<close> is \<^verbatim>\<open>createCipheriv\<close>, \<^verbatim>\<open>update\<close>, \<^verbatim>\<open>final\<close> and
    \<^verbatim>\<open>getAuthTag\<close>: the ciphertext and the tag;
  \<^item> \<open>gcm_open key iv tag ciphertext\<close> is \<^verbatim>\<open>createDecipheriv\<close>, \<^verbatim>\<open>setAuthTag\<close>,
    \<^verbatim>\<open>update\<close> and \<^verbatim>\<open>final\<close>: \<open>None\<close> when one of them throws (a tag that does not
    verify, a tag or nonce of the wrong length);
  \<^item> \<open>hmac_sha256_hex key value\<close> is \<^verbatim>\<open>createHmac('sha256', key).update(value).digest('hex')\<close>.
\<close>

record node_crypto =
  base64_decode :: "js_string \<Rightarrow> byte list"
  base64_encode :: "byte list \<Rightarrow> js_string"
  hkdf :: "byte list \<Rightarrow> byte list \<Rightarrow> byte list"
  gcm_seal :: "byte list \<Rightarrow> byte list \<Rightarrow> byte list \<Rightarrow> byte list \<times> byte list"
  gcm_open :: "byte list \<Rightarrow> byte list \<Rightarrow> byte list \<Rightarrow> byte list \<Rightarrow> byte list option"
  hmac_sha256_hex :: "byte list \<Rightarrow> js_string \<Rightarrow> js_string"

text \<open>
  What the model asks of the primitives: base64 decoding inverts encoding and reads the
  empty string as no bytes; opening with the key, nonce and tag of a sealing gives the
  plaintext back; the tag has the length asked for.
\<close>

definition crypto_laws :: "node_crypto \<Rightarrow> bool" where
  "crypto_laws P =
     ((\<forall>bs. base64_decode P (base64_encode P bs) = bs)
      \<and> base64_decode P [] = []
      \<and> (\<forall>k iv pt. gcm_open P k iv (snd (gcm_seal P k iv pt)) (fst (gcm_seal P k iv pt)) = Some pt)
      \<and> (\<forall>k iv pt. length (snd (gcm_seal P k iv pt)) = AUTH_TAG_LENGTH))"

subsection \<open>The module\<close>

datatype enc_error =
    KeyRequired      \<comment> \<open>\<^verbatim>\<open>ENCRYPTION_KEY environment variable is required for encryption\<close>\<close>
  | KeyLength        \<comment> \<open>\<^verbatim>\<open>ENCRYPTION_KEY must be exactly 32 bytes (256 bits) when decoded\<close>\<close>
  | DecipherError    \<comment> \<open>thrown by the decipher\<close>

text \<open>\<^verbatim>\<open>process.env.ENCRYPTION_KEY\<close> is the first argument of every function that reads it.\<close>

definition getEncryptionKey :: "js_string option \<Rightarrow> node_crypto \<Rightarrow> enc_error + byte list" where
  "getEncryptionKey key P =
     (if \<not> truthy key then Inl KeyRequired
      else let keyBuffer = base64_decode P (the key)
           in if length keyBuffer \<noteq> 32 then Inl KeyLength else Inr keyBuffer)"

text \<open>
  \<^verbatim>\<open>encrypt(plaintext)\<close>; \<open>iv\<close> and \<open>salt\<close> are what \<^verbatim>\<open>crypto.randomBytes(IV_LENGTH)\<close> and
  \<^verbatim>\<open>crypto.randomBytes(SALT_LENGTH)\<close> return in this call.
\<close>

definition encrypt ::
  "js_string option \<Rightarrow> node_crypto \<Rightarrow> byte list \<Rightarrow> byte list \<Rightarrow> js_string \<Rightarrow> enc_error + js_string" where
  "encrypt env_key P iv salt plaintext =
     (if plaintext = [] then Inr []
      else case getEncryptionKey env_key P of
             Inl e \<Rightarrow> Inl e
           | Inr key \<Rightarrow>
               (let derivedKey = hkdf P key salt;
                    (encrypted, authTag) = gcm_seal P derivedKey iv (utf8_encode plaintext);
                    combined = salt @ iv @ authTag @ encrypted
                in Inr (base64_encode P combined)))"

text \<open>\<^verbatim>\<open>buf.subarray(start, end)\<close> for \<open>0 \<le> start \<le> end\<close>: both ends are clamped to the length.\<close>

definition subarray :: "'a list \<Rightarrow> nat \<Rightarrow> nat \<Rightarrow> 'a list" where
  "subarray buf start stop = take (stop - start) (drop start buf)"

definition decrypt :: "js_string option \<Rightarrow> node_crypto \<Rightarrow> js_string \<Rightarrow> enc_error + js_string" where
  "decrypt env_key P encryptedData =
     (if encryptedData = [] then Inr []
      else case getEncryptionKey env_key P of
             Inl e \<Rightarrow> Inl e
           | Inr key \<Rightarrow>
               (let combined = base64_decode P encryptedData;
                    salt = subarray combined 0 SALT_LENGTH;
                    iv = subarray combined SALT_LENGTH (SALT_LENGTH + IV_LENGTH);
                    authTag = subarray combined (SALT_LENGTH + IV_LENGTH)
                                (SALT_LENGTH + IV_LENGTH + AUTH_TAG_LENGTH);
                    ciphertext = drop (SALT_LENGTH + IV_LENGTH + AUTH_TAG_LENGTH) combined;
                    derivedKey = hkdf P key salt
                in case gcm_open P derivedKey iv authTag ciphertext of
                     None \<Rightarrow> Inl DecipherError
                   | Some decrypted \<Rightarrow> Inr (utf8_decode decrypted)))"

text \<open>\<^verbatim>\<open>isEncrypted(value)\<close>; the \<^verbatim>\<open>try\<close> around the decoding never catches anything.\<close>

definition isEncrypted :: "node_crypto \<Rightarrow> js_string \<Rightarrow> bool" where
  "isEncrypted P v =
     (if v = [] then False
      else length (base64_decode P v) \<ge> SALT_LENGTH + IV_LENGTH + AUTH_TAG_LENGTH + 1)"

text \<open>
  \<^verbatim>\<open>safeDecrypt(value)\<close>. The result is written as a sum, like those of \<open>encrypt\<close> and
  \<open>decrypt\<close>, so that "does not throw" is a statement about it; the \<^verbatim>\<open>catch\<close> logs and
  returns the value.
\<close>

definition safeDecrypt :: "js_string option \<Rightarrow> node_crypto \<Rightarrow> js_string \<Rightarrow> enc_error + js_string" where
  "safeDecrypt env_key P v =
     (if v = [] then Inr []
      else if \<not> isEncrypted P v then Inr v
      else case decrypt env_key P v of
             Inl _ \<Rightarrow> Inr v
           | Inr plaintext \<Rightarrow> Inr plaintext)"

definition secureHash :: "js_string option \<Rightarrow> node_crypto \<Rightarrow> js_string \<Rightarrow> enc_error + js_string" where
  "secureHash env_key P v =
     (if v = [] then Inr []
      else case getEncryptionKey env_key P of
             Inl e \<Rightarrow> Inl e
           | Inr key \<Rightarrow> Inr (hmac_sha256_hex P key v))"

text \<open>\<^verbatim>\<open>isEncryptionConfigured()\<close>.\<close>

definition isEncryptionConfigured :: "js_string option \<Rightarrow> node_crypto \<Rightarrow> bool" where
  "isEncryptionConfigured env_key P =
     (case getEncryptionKey env_key P of Inl _ \<Rightarrow> False | Inr _ \<Rightarrow> True)"

text \<open>
  Primitives for the examples. They satisfy \<open>crypto_laws\<close> and are not the platform's:
  the encoding writes each byte as one code unit, the cipher adds one to every byte and
  its tag is sixteen copies of the plaintext's length.
\<close>

definition example_crypto :: node_crypto where
  "example_crypto =
     \<lparr>base64_decode = map ucast,
      base64_encode = map ucast,
      hkdf = (\<lambda>key salt. key),
      gcm_seal = (\<lambda>key iv pt. (map (\<lambda>b. b + 1) pt, replicate 16 (of_nat (length pt)))),
      gcm_open = (\<lambda>key iv tag ct.
         if tag = replicate 16 (of_nat (length ct)) then Some (map (\<lambda>b. b - 1) ct) else None),
      hmac_sha256_hex = (\<lambda>key v. v)\<rparr>"

definition example_key :: "js_string option" where
  "example_key = Some (replicate 32 0x41)"

section \<open>Notifier: \<^verbatim>\<open>system-build/src/lib/notifications.ts\<close>\<close>

text \<open>
  Exceptions are values. \<open>RangeError\<close> is what \<^verbatim>\<open>new Intl.NumberFormat\<close> throws; the two
  Prisma errors and \<open>LibError\<close> are used by the webhook route further down.
\<close>

datatype js_error =
    RangeError
  | UniqueConstraintViolation
  | RecordNotFound
  | LibError string

datatype notification_type = Payment | Refund | Dispute

record PaymentNotificationData =
  n_type :: notification_type
  n_amount :: real
  n_currency :: string
  n_projectName :: string
  n_projectId :: "string option"
  n_chargeId :: "string option"
  n_disputeId :: "string option"
  n_reason :: "string option"
  n_priority :: "int option"
  n_isPartialRefund :: "bool option"
  n_originalAmount :: "real option"

record pushover_env =
  PUSHOVER_API_TOKEN :: "string option"
  PUSHOVER_USER_KEY :: "string option"

text \<open>The four titles; each starts with an emoji in the source.\<close>

datatype push_title = PaymentReceived | PartialRefund | FullRefund | DisputeAlert

text \<open>The JSON body posted to \<^verbatim>\<open>https://api.pushover.net/1/messages.json\<close>.\<close>

record push_request =
  p_token :: string
  p_user :: string
  p_message :: string
  p_title :: push_title
  p_url :: "string option"
  p_url_title :: "string option"
  p_priority :: int
  p_sound :: string

text \<open>
  What \<^verbatim>\<open>fetch\<close> does with the request: it throws, or it answers; a non-OK answer has a
  body that \<^verbatim>\<open>response.text()\<close> reads or fails to read.
\<close>

datatype push_reply = PushThrows | PushNotOk bool | PushOk

datatype notify_log =
    CredentialsNotConfigured   \<comment> \<open>\<^verbatim>\<open>console.warn\<close>, notification skipped\<close>
  | PushoverApiError           \<comment> \<open>\<^verbatim>\<open>console.error\<close>, response not OK\<close>
  | NotificationSent           \<comment> \<open>\<^verbatim>\<open>console.log\<close>\<close>
  | FailedToSend               \<comment> \<open>\<^verbatim>\<open>console.error\<close> in the \<^verbatim>\<open>catch\<close>\<close>

record notify_outcome =
  logged :: "notify_log list"
  requests :: "push_request list"

text \<open>
  \<^verbatim>\<open>new Intl.NumberFormat('en-CA', {style: 'currency', currency})\<close> throws a
  \<^verbatim>\<open>RangeError\<close> unless the currency code is well formed: three ASCII letters. The text it
  formats to is left to the parameter \<open>fmt\<close>.
\<close>

definition is_ascii_letter :: "char \<Rightarrow> bool" where
  "is_ascii_letter c =
     (let n = (of_char c :: nat) in (65 \<le> n \<and> n \<le> 90) \<or> (97 \<le> n \<and> n \<le> 122))"

definition well_formed_currency_code :: "string \<Rightarrow> bool" where
  "well_formed_currency_code c = (length c = 3 \<and> list_all is_ascii_letter c)"

definition format_currency :: "(string \<Rightarrow> real \<Rightarrow> string) \<Rightarrow> string \<Rightarrow> real \<Rightarrow> js_error + string" where
  "format_currency fmt cur x =
     (if well_formed_currency_code cur then Inr (fmt cur x) else Inl RangeError)"

text \<open>\<^verbatim>\<open>a || b\<close> on strings, and the truthiness of a number that may be absent.\<close>

definition or_else :: "string \<Rightarrow> string \<Rightarrow> string" where
  "or_else a b = (if a = [] then b else a)"

fun truthy_number :: "real option \<Rightarrow> bool" where
  "truthy_number None = False"
| "truthy_number (Some x) = (x \<noteq> 0)"

definition newline :: string where
  "newline = [CHR 0x0A]"

text \<open>
  The \<^verbatim>\<open>switch (type)\<close>: title, message, url and url title. Only the partial-refund branch
  builds a second formatter, which throws as the first one does.
\<close>

definition build_message ::
  "(string \<Rightarrow> real \<Rightarrow> string) \<Rightarrow> PaymentNotificationData \<Rightarrow> string \<Rightarrow>
   js_error + (push_title \<times> string \<times> string option \<times> string option)" where
  "build_message fmt d formattedAmount =
     (case n_type d of
        Payment \<Rightarrow>
          Inr (PaymentReceived,
               formattedAmount @ '' received for '' @ n_projectName d,
               (if truthy (n_projectId d)
                then Some (''https://dash.bertrandgroup.ca/projects/'' @ the (n_projectId d)) else None),
               (if truthy (n_projectId d) then Some ''View Project'' else None))
      | Refund \<Rightarrow>
          (case (if n_isPartialRefund d = Some True
                 then (case (if truthy_number (n_originalAmount d)
                             then map_sum id Some
                                    (format_currency fmt (or_else (n_currency d) ''CAD'')
                                       (the (n_originalAmount d)))
                             else Inr None) of
                         Inl e \<Rightarrow> Inl e
                       | Inr formattedOriginal \<Rightarrow>
                           Inr (PartialRefund,
                                formattedAmount @ '' of ''
                                @ or_else (case formattedOriginal of None \<Rightarrow> [] | Some s \<Rightarrow> s) ''original''
                                @ '' refunded for '' @ n_projectName d))
                 else Inr (FullRefund, formattedAmount @ '' refunded for '' @ n_projectName d)) of
             Inl e \<Rightarrow> Inl e
           | Inr (title, message) \<Rightarrow>
               Inr (title,
                    message @ (if truthy (n_chargeId d)
                               then newline @ ''Charge: '' @ the (n_chargeId d) else []),
                    (if truthy (n_projectId d)
                     then Some (''https://dash.bertrandgroup.ca/projects/'' @ the (n_projectId d)) else None),
                    (if truthy (n_projectId d) then Some ''View Project'' else None)))
      | Dispute \<Rightarrow>
          Inr (DisputeAlert,
               formattedAmount @ '' disputed for '' @ n_projectName d
               @ (if truthy (n_reason d) then newline @ ''Reason: '' @ the (n_reason d) else [])
               @ (if truthy (n_disputeId d) then newline @ ''Dispute ID: '' @ the (n_disputeId d) else []),
               (if truthy (n_disputeId d)
                then Some (''https://dashboard.stripe.com/disputes/'' @ the (n_disputeId d)) else None),
               (if truthy (n_disputeId d) then Some ''View in Stripe'' else None)))"

text \<open>
  \<^verbatim>\<open>sendPaymentNotification(data)\<close>. \<open>Inl\<close> is an exception reaching the caller. The
  formatter and the \<^verbatim>\<open>switch\<close> run before the \<^verbatim>\<open>try\<close> block; only \<^verbatim>\<open>fetch\<close> and the
  reading of the response are inside it.
\<close>

definition sendPaymentNotification ::
  "pushover_env \<Rightarrow> (string \<Rightarrow> real \<Rightarrow> string) \<Rightarrow> (push_request \<Rightarrow> push_reply) \<Rightarrow>
   PaymentNotificationData \<Rightarrow> js_error + notify_outcome" where
  "sendPaymentNotification env fmt fetch d =
     (if \<not> truthy (PUSHOVER_API_TOKEN env) \<or> \<not> truthy (PUSHOVER_USER_KEY env)
      then Inr \<lparr>logged = [CredentialsNotConfigured], requests = []\<rparr>
      else case format_currency fmt (or_else (n_currency d) ''CAD'') (n_amount d) of
        Inl e \<Rightarrow> Inl e
      | Inr formattedAmount \<Rightarrow>
         (case build_message fmt d formattedAmount of
            Inl e \<Rightarrow> Inl e
          | Inr (title, message, url, urlTitle) \<Rightarrow>
             (let req = \<lparr>p_token = the (PUSHOVER_API_TOKEN env),
                         p_user = the (PUSHOVER_USER_KEY env),
                         p_message = message,
                         p_title = title,
                         p_url = url,
                         p_url_title = urlTitle,
                         p_priority = (case n_priority d of
                                         Some p \<Rightarrow> p
                                       | None \<Rightarrow> if n_type d = Dispute then 1 else 0),
                         p_sound = (if n_type d = Dispute then ''siren'' else ''cashregister'')\<rparr>
              in case fetch req of
                   PushThrows \<Rightarrow> Inr \<lparr>logged = [FailedToSend], requests = [req]\<rparr>
                 | PushNotOk readable \<Rightarrow>
                     Inr \<lparr>logged = [if readable then PushoverApiError else FailedToSend],
                          requests = [req]\<rparr>
                 | PushOk \<Rightarrow> Inr \<lparr>logged = [NotificationSent], requests = [req]\<rparr>)))"

text \<open>An environment with both Pushover credentials, for the examples.\<close>

definition pushover_configured :: pushover_env where
  "pushover_configured = \<lparr>PUSHOVER_API_TOKEN = Some ''token'', PUSHOVER_USER_KEY = Some ''user''\<rparr>"

definition example_payment :: "string \<Rightarrow> PaymentNotificationData" where
  "example_payment cur =
     \<lparr>n_type = Payment, n_amount = 10, n_currency = cur, n_projectName = ''Site'',
      n_projectId = None, n_chargeId = None, n_disputeId = None, n_reason = None,
      n_priority = None, n_isPartialRefund = None, n_originalAmount = None\<rparr>"

section \<open>Stripe webhook: \<^verbatim>\<open>system-build/src/app/api/stripe/checkout-session/route.ts\<close>\<close>

text \<open>
  The second module of the file, the webhook endpoint. Its request, the Stripe event, the
  Prisma tables it touches and the requests sent to Pushover are explicit; the handler
  takes the state of the world and returns the response and the new state. Console output
  is not modelled.
\<close>

subsection \<open>Stripe events\<close>

datatype jv = JStr string | JInt int | JBool bool | JNil | JUndef

text \<open>A Stripe field that holds an id, the expanded object with that id, or \<^verbatim>\<open>null\<close>.\<close>

datatype expandable = ExpId string | ExpObject string | ExpNull

record checkout_session =
  cs_id :: string
  cs_metadata :: "(string \<rightharpoonup> string) option"
  cs_customer_email :: "string option"
  cs_amount_total :: "int option"
  cs_currency :: "string option"
  cs_payment_intent :: expandable

record payment_error =
  err_message :: "string option"
  err_code :: "string option"
  err_type :: "string option"

record payment_intent =
  pi_id :: string
  pi_last_payment_error :: "payment_error option"

record charge =
  ch_id :: string
  ch_amount_refunded :: int
  ch_amount :: int
  ch_refunded :: bool
  ch_currency :: string
  ch_payment_intent :: expandable

record dispute =
  dp_id :: string
  dp_charge :: expandable
  dp_amount :: int
  dp_currency :: string
  dp_reason :: string
  dp_payment_intent :: expandable

text \<open>
  \<^verbatim>\<open>event.type\<close> decides what \<^verbatim>\<open>event.data.object\<close> is, so the two are one value.
\<close>

datatype event_object =
    CheckoutSessionCompleted checkout_session
  | CheckoutSessionExpired checkout_session
  | PaymentIntentPaymentFailed payment_intent
  | ChargeRefunded charge
  | ChargeDisputeCreated dispute
  | UnhandledEvent string

record stripe_event =
  ev_id :: string
  ev_object :: event_object

fun event_type :: "event_object \<Rightarrow> string" where
  "event_type (CheckoutSessionCompleted _) = ''checkout.session.completed''"
| "event_type (CheckoutSessionExpired _) = ''checkout.session.expired''"
| "event_type (PaymentIntentPaymentFailed _) = ''payment_intent.payment_failed''"
| "event_type (ChargeRefunded _) = ''charge.refunded''"
| "event_type (ChargeDisputeCreated _) = ''charge.dispute.created''"
| "event_type (UnhandledEvent t) = t"

text \<open>\<^verbatim>\<open>session.metadata?.[key]\<close>.\<close>

definition metadata_get :: "checkout_session \<Rightarrow> string \<Rightarrow> string option" where
  "metadata_get s key = (case cs_metadata s of None \<Rightarrow> None | Some m \<Rightarrow> m key)"

subsection \<open>The tables\<close>

datatype PaymentEventStatus = SUCCESS | FAILED | UNMATCHED | DISPUTE

record payment_event_row =
  row_provider :: string
  row_eventId :: string
  row_eventType :: string
  row_projectId :: "string option"
  row_status :: PaymentEventStatus
  row_errorMsg :: "string option"
  row_metadata :: "(string \<times> jv) list"

record invoice =
  inv_status :: string
  inv_paidAt :: "int option"
  inv_invoiceNumber :: string

record project =
  prj_id :: string
  prj_publicId :: string
  prj_name :: string
  prj_paymentStatus :: string
  prj_stripePaymentIntentId :: "string option"

record database =
  payment_events :: "payment_event_row list"
  invoices :: "string \<rightharpoonup> invoice"
  projects :: "project list"

text \<open>
  Modelled from the spec: the Prisma schema is not among the sources. The spec makes
  \<open>eventId\<close> unique across all records (section 3), so \<^verbatim>\<open>prisma.payment_events.create\<close>
  throws when a row with the event id exists and appends the row otherwise.
\<close>

definition payment_events_create :: "payment_event_row \<Rightarrow> database \<Rightarrow> js_error + database" where
  "payment_events_create row d =
     (if list_ex (\<lambda>r. row_eventId r = row_eventId row) (payment_events d)
      then Inl UniqueConstraintViolation
      else Inr (d\<lparr>payment_events := payment_events d @ [row]\<rparr>))"

text \<open>
  \<^verbatim>\<open>prisma.invoices.update({where: {id}, data: {status: 'PAID', paidAt: new Date()}})\<close>:
  Prisma throws when no record has the id.
\<close>

definition invoices_update_paid :: "string \<Rightarrow> int \<Rightarrow> database \<Rightarrow> js_error + database" where
  "invoices_update_paid invoiceId now d =
     (case invoices d invoiceId of
        None \<Rightarrow> Inl RecordNotFound
      | Some i \<Rightarrow>
          Inr (d\<lparr>invoices := (invoices d)(invoiceId \<mapsto> i\<lparr>inv_status := ''PAID'', inv_paidAt := Some now\<rparr>)\<rparr>))"

definition projects_findFirst_by_payment_intent :: "string \<Rightarrow> database \<Rightarrow> project option" where
  "projects_findFirst_by_payment_intent paymentIntentId d =
     find (\<lambda>p. prj_stripePaymentIntentId p = Some paymentIntentId) (projects d)"

definition projects_findUnique_by_publicId :: "string \<Rightarrow> database \<Rightarrow> project option" where
  "projects_findUnique_by_publicId publicId d = find (\<lambda>p. prj_publicId p = publicId) (projects d)"

text \<open>
  Modelled from the spec: \<^verbatim>\<open>isEventProcessed\<close> lives in \<^verbatim>\<open>lib/payment-status\<close>, which is
  not among the sources. The spec (section 4.4) makes it an existence check of the event
  id against the stored records.
\<close>

definition isEventProcessed :: "string \<Rightarrow> database \<Rightarrow> bool" where
  "isEventProcessed eventId d = list_ex (\<lambda>r. row_eventId r = eventId) (payment_events d)"

subsection \<open>The rate limiter of the route\<close>

definition RATE_LIMIT_WINDOW :: int where "RATE_LIMIT_WINDOW = 60 * 1000"
definition RATE_LIMIT_MAX :: int where "RATE_LIMIT_MAX = 100"
definition RATE_LIMIT_CLEANUP_INTERVAL :: int where "RATE_LIMIT_CLEANUP_INTERVAL = 5 * 60 * 1000"
definition RATE_LIMIT_MAX_ENTRIES :: nat where "RATE_LIMIT_MAX_ENTRIES = 1000"

text \<open>The \<^verbatim>\<open>Map\<close> keeps insertion order and has a size, so it is an association list.\<close>

record route_limiter =
  rateLimitMap :: "(string \<times> rl_entry) list"
  lastCleanup :: int

fun map_set :: "string \<Rightarrow> rl_entry \<Rightarrow> (string \<times> rl_entry) list \<Rightarrow> (string \<times> rl_entry) list" where
  "map_set k v [] = [(k, v)]"
| "map_set k v (p # ps) = (if fst p = k then (k, v) # ps else p # map_set k v ps)"

definition cleanupRateLimitMap :: "int \<Rightarrow> route_limiter \<Rightarrow> route_limiter" where
  "cleanupRateLimitMap now st =
     (if now - lastCleanup st < RATE_LIMIT_CLEANUP_INTERVAL
         \<and> length (rateLimitMap st) < RATE_LIMIT_MAX_ENTRIES
      then st
      else \<lparr>rateLimitMap = filter (\<lambda>p. \<not> now > entry_resetAt (snd p)) (rateLimitMap st),
            lastCleanup = now\<rparr>)"

text \<open>The route's own \<^verbatim>\<open>checkRateLimit(ip)\<close>.\<close>

definition checkRateLimit_route :: "string \<Rightarrow> int \<Rightarrow> route_limiter \<Rightarrow> bool \<times> route_limiter" where
  "checkRateLimit_route ip now st =
     (let st1 = cleanupRateLimitMap now st;
          fresh = (True, st1\<lparr>rateLimitMap :=
                     map_set ip \<lparr>count = 1, entry_resetAt = now + RATE_LIMIT_WINDOW\<rparr> (rateLimitMap st1)\<rparr>)
      in case map_of (rateLimitMap st1) ip of
           None \<Rightarrow> fresh
         | Some e \<Rightarrow>
             if now > entry_resetAt e then fresh
             else if count e \<ge> RATE_LIMIT_MAX then (False, st1)
             else (True, st1\<lparr>rateLimitMap := map_set ip (e\<lparr>count := count e + 1\<rparr>) (rateLimitMap st1)\<rparr>))"

subsection \<open>What the route imports\<close>

record checkout_params =
  cp_eventId :: string
  cp_eventType :: string
  cp_projectPublicId :: string
  cp_checkoutSessionId :: string
  cp_paymentIntentId :: "string option"
  cp_amountTotal :: "int option"
  cp_customerEmail :: "string option"
  cp_metadata :: "(string \<rightharpoonup> string) option"

record checkout_result =
  cr_success :: bool
  cr_error :: "string option"
  cr_unmatched :: bool
  cr_skipped :: bool
  cr_projectId :: "string option"

record refund_params =
  rp_eventId :: string
  rp_eventType :: string
  rp_chargeId :: string
  rp_paymentIntentId :: "string option"
  rp_refundAmount :: int
  rp_originalAmount :: int
  rp_isFullRefund :: bool
  rp_currency :: string
  rp_projectId :: "string option"

record refund_result =
  rr_success :: bool
  rr_isPartial :: bool
  rr_projectId :: "string option"
  rr_error :: "string option"

text \<open>
  \<^verbatim>\<open>lib/stripe\<close> and \<^verbatim>\<open>lib/payment-status\<close> are not among the sources; what the route
  imports from them is a parameter: the signature check (\<open>Inl\<close> is its exception), the
  two metadata keys, and the two functions that process a payment and a refund against
  the database (\<open>Inl\<close> is an exception). With them come the two externals of the notifier.
\<close>

record webhook_deps =
  verifyStripeWebhook :: "string \<Rightarrow> string \<Rightarrow> string \<Rightarrow> string + stripe_event"
  PROJECT_PUBLIC_ID :: string
  ENVIRONMENT :: string
  processStripeCheckoutCompleted ::
    "checkout_params \<Rightarrow> database \<Rightarrow> (js_error + checkout_result) \<times> database"
  processStripeRefund :: "refund_params \<Rightarrow> database \<Rightarrow> (js_error + refund_result) \<times> database"
  pushover_fetch :: "push_request \<Rightarrow> push_reply"
  currency_text :: "string \<Rightarrow> real \<Rightarrow> string"

record webhook_env =
  STRIPE_WEBHOOK_SECRET :: "string option"
  NODE_ENV :: "string option"
  pushover :: pushover_env

record webhook_request =
  x_forwarded_for :: "string option"
  stripe_signature :: "string option"
  raw_body :: "string option"   \<comment> \<open>\<open>None\<close>: \<^verbatim>\<open>request.text()\<close> throws\<close>

record response =
  res_status :: nat
  res_body :: "(string \<times> jv) list"

record world =
  w_db :: database
  w_limiter :: route_limiter
  w_pushes :: "push_request list"

subsection \<open>The handlers\<close>

definition json :: "nat \<Rightarrow> (string \<times> jv) list \<Rightarrow> response" where
  "json st b = \<lparr>res_status = st, res_body = b\<rparr>"

text \<open>\<^verbatim>\<open>await sendPaymentNotification(data)\<close> in the world: the requests it makes are recorded.\<close>

definition notify ::
  "webhook_env \<Rightarrow> webhook_deps \<Rightarrow> PaymentNotificationData \<Rightarrow> world \<Rightarrow> (js_error + unit) \<times> world" where
  "notify env deps d w =
     (case sendPaymentNotification (pushover env) (currency_text deps) (pushover_fetch deps) d of
        Inl e \<Rightarrow> (Inl e, w)
      | Inr out \<Rightarrow> (Inr (), w\<lparr>w_pushes := w_pushes w @ requests out\<rparr>))"

definition currentEnv :: "webhook_env \<Rightarrow> string" where
  "currentEnv env = (if NODE_ENV env = Some ''production'' then ''production'' else ''development'')"

definition opt_jv :: "string option \<Rightarrow> jv \<Rightarrow> jv" where
  "opt_jv v absent = (case v of None \<Rightarrow> absent | Some s \<Rightarrow> JStr s)"

definition opt_int_jv :: "int option \<Rightarrow> jv" where
  "opt_int_jv v = (case v of None \<Rightarrow> JNil | Some n \<Rightarrow> JInt n)"

fun truthy_int :: "int option \<Rightarrow> bool" where
  "truthy_int None = False"
| "truthy_int (Some n) = (n \<noteq> 0)"

text \<open>\<^verbatim>\<open>toUpperCase()\<close> on the ASCII letters of a currency code.\<close>

definition toUpperCase :: "string \<Rightarrow> string" where
  "toUpperCase s =
     map (\<lambda>c. let n = (of_char c :: nat) in if 97 \<le> n \<and> n \<le> 122 then char_of (n - 32) else c) s"

definition session_currency :: "checkout_session \<Rightarrow> string" where
  "session_currency s =
     or_else (case cs_currency s of None \<Rightarrow> [] | Some c \<Rightarrow> toUpperCase c) ''CAD''"

definition payment_notification ::
  "real \<Rightarrow> string \<Rightarrow> string \<Rightarrow> string option \<Rightarrow> PaymentNotificationData" where
  "payment_notification amt cur name pid =
     \<lparr>n_type = Payment, n_amount = amt, n_currency = cur, n_projectName = name,
      n_projectId = pid, n_chargeId = None, n_disputeId = None, n_reason = None,
      n_priority = None, n_isPartialRefund = None, n_originalAmount = None\<rparr>"

text \<open>The branch for an invoice without a project: one \<^verbatim>\<open>try\<close> block, whose \<^verbatim>\<open>catch\<close> answers 500.\<close>

definition invoice_only_payment ::
  "webhook_env \<Rightarrow> webhook_deps \<Rightarrow> int \<Rightarrow> stripe_event \<Rightarrow> checkout_session \<Rightarrow> string \<Rightarrow>
   world \<Rightarrow> response \<times> world" where
  "invoice_only_payment env deps now ev s invoiceId w =
     (let failed = json 500 [(''error'', JStr ''Failed to process'')]
      in case invoices_update_paid invoiceId now (w_db w) of
           Inl _ \<Rightarrow> (failed, w)
         | Inr d1 \<Rightarrow>
            (case payment_events_create
                    \<lparr>row_provider = ''STRIPE'', row_eventId = ev_id ev,
                     row_eventType = event_type (ev_object ev), row_projectId = None,
                     row_status = SUCCESS, row_errorMsg = None,
                     row_metadata =
                       [(''sessionId'', JStr (cs_id s)), (''invoiceId'', JStr invoiceId),
                        (''customerEmail'', opt_jv (cs_customer_email s) JNil),
                        (''amountTotal'', opt_int_jv (cs_amount_total s)),
                        (''note'', JStr ''Invoice paid without linked project'')]\<rparr> d1 of
               Inl _ \<Rightarrow> (failed, w\<lparr>w_db := d1\<rparr>)
             | Inr d2 \<Rightarrow>
                (let w2 = w\<lparr>w_db := d2\<rparr>;
                     done = json 200 [(''received'', JBool True), (''status'', JStr ''success''),
                                      (''invoiceId'', JStr invoiceId)]
                 in if truthy_int (cs_amount_total s)
                    then (case notify env deps
                                 (payment_notification (real_of_int (the (cs_amount_total s)) / 100)
                                    (session_currency s)
                                    (''Invoice '' @ or_else (case invoices d2 invoiceId of
                                                               None \<Rightarrow> []
                                                             | Some i \<Rightarrow> inv_invoiceNumber i) invoiceId)
                                    None) w2 of
                            (Inl _, w3) \<Rightarrow> (failed, w3)
                          | (Inr _, w3) \<Rightarrow> (done, w3))
                    else (done, w2))))"

text \<open>
  \<^verbatim>\<open>handleCheckoutSessionCompleted(event)\<close>. \<open>Inl\<close> is an exception leaving the handler,
  together with the state reached when it was thrown.
\<close>

definition handleCheckoutSessionCompleted ::
  "webhook_env \<Rightarrow> webhook_deps \<Rightarrow> int \<Rightarrow> stripe_event \<Rightarrow> checkout_session \<Rightarrow> world \<Rightarrow>
   (js_error + response) \<times> world" where
  "handleCheckoutSessionCompleted env deps now ev s w =
     (let projectPublicId = metadata_get s (PROJECT_PUBLIC_ID deps);
          environment = metadata_get s (ENVIRONMENT deps)
      in if truthy environment \<and> the environment \<noteq> currentEnv env
         then (Inr (json 200 [(''received'', JBool True), (''status'', JStr ''wrong_environment'')]), w)
         else
          (let invoiceId = metadata_get s ''invoice_id''
           in if \<not> truthy projectPublicId then
                (if truthy invoiceId
                 then (let (r, w') = invoice_only_payment env deps now ev s (the invoiceId) w
                       in (Inr r, w'))
                 else (case payment_events_create
                              \<lparr>row_provider = ''STRIPE'', row_eventId = ev_id ev,
                               row_eventType = event_type (ev_object ev), row_projectId = None,
                               row_status = UNMATCHED,
                               row_errorMsg = Some ''Missing project_public_id in session metadata'',
                               row_metadata =
                                 [(''sessionId'', JStr (cs_id s)),
                                  (''customerEmail'', opt_jv (cs_customer_email s) JNil),
                                  (''amountTotal'', opt_int_jv (cs_amount_total s))]\<rparr> (w_db w) of
                         Inl e \<Rightarrow> (Inl e, w)
                       | Inr d1 \<Rightarrow>
                           (Inr (json 200 [(''received'', JBool True), (''status'', JStr ''unmatched'')]),
                            w\<lparr>w_db := d1\<rparr>)))
              else
                (case processStripeCheckoutCompleted deps
                        \<lparr>cp_eventId = ev_id ev, cp_eventType = event_type (ev_object ev),
                         cp_projectPublicId = the projectPublicId, cp_checkoutSessionId = cs_id s,
                         cp_paymentIntentId =
                           (case cs_payment_intent s of ExpId i \<Rightarrow> Some i | _ \<Rightarrow> None),
                         cp_amountTotal = cs_amount_total s,
                         cp_customerEmail = cs_customer_email s,
                         cp_metadata = cs_metadata s\<rparr> (w_db w) of
                   (Inl e, d1) \<Rightarrow> (Inl e, w\<lparr>w_db := d1\<rparr>)
                 | (Inr result, d1) \<Rightarrow>
                    (let w1 = w\<lparr>w_db := d1\<rparr>;
                         done = json 200 [(''received'', JBool True), (''status'', JStr ''success''),
                                          (''projectId'', opt_jv (cr_projectId result) JUndef)]
                     in if \<not> cr_success result then
                          (if cr_unmatched result
                           then (Inr (json 200 [(''received'', JBool True),
                                                (''status'', JStr ''unmatched'')]), w1)
                           else (Inr (json 500 [(''error'', opt_jv (cr_error result) JUndef)]), w1))
                        else if cr_skipped result then (Inr done, w1)
                        else
                          (let w2 = (if truthy invoiceId
                                     then (case invoices_update_paid (the invoiceId) now (w_db w1) of
                                             Inl _ \<Rightarrow> w1
                                           | Inr d2 \<Rightarrow> w1\<lparr>w_db := d2\<rparr>)
                                     else w1)
                           in if truthy_int (cs_amount_total s)
                              then (let prj = projects_findUnique_by_publicId (the projectPublicId) (w_db w2)
                                    in case notify env deps
                                         (payment_notification
                                            (real_of_int (the (cs_amount_total s)) / 100)
                                            (session_currency s)
                                            (or_else (case prj of None \<Rightarrow> [] | Some p \<Rightarrow> prj_name p)
                                               (the projectPublicId))
                                            (map_option prj_id prj)) w2 of
                                         (Inl e, w3) \<Rightarrow> (Inl e, w3)
                                       | (Inr _, w3) \<Rightarrow> (Inr done, w3))
                              else (Inr done, w2))))))"

definition log_row ::
  "stripe_event \<Rightarrow> PaymentEventStatus \<Rightarrow> string option \<Rightarrow> string option \<Rightarrow> (string \<times> jv) list \<Rightarrow>
   world \<Rightarrow> (js_error + response) \<times> world" where
  "log_row ev st err pid meta w =
     (case payment_events_create
             \<lparr>row_provider = ''STRIPE'', row_eventId = ev_id ev,
              row_eventType = event_type (ev_object ev), row_projectId = pid,
              row_status = st, row_errorMsg = err, row_metadata = meta\<rparr> (w_db w) of
        Inl e \<Rightarrow> (Inl e, w)
      | Inr d1 \<Rightarrow>
          (Inr (json 200 [(''received'', JBool True), (''status'', JStr ''logged'')]),
           w\<lparr>w_db := d1\<rparr>))"

definition handleCheckoutSessionExpired ::
  "webhook_deps \<Rightarrow> stripe_event \<Rightarrow> checkout_session \<Rightarrow> world \<Rightarrow> (js_error + response) \<times> world" where
  "handleCheckoutSessionExpired deps ev s w =
     log_row ev SUCCESS None None
       [(''sessionId'', JStr (cs_id s)),
        (''projectPublicId'', opt_jv (metadata_get s (PROJECT_PUBLIC_ID deps)) JUndef),
        (''reason'', JStr ''Session expired before completion'')] w"

definition handlePaymentIntentFailed ::
  "stripe_event \<Rightarrow> payment_intent \<Rightarrow> world \<Rightarrow> (js_error + response) \<times> world" where
  "handlePaymentIntentFailed ev p w =
     (let lastError = pi_last_payment_error p;
          field = (\<lambda>f. case lastError of None \<Rightarrow> None | Some e \<Rightarrow> f e)
      in log_row ev FAILED
           (Some (or_else (case field err_message of None \<Rightarrow> [] | Some m \<Rightarrow> m) ''Payment failed''))
           None
           [(''paymentIntentId'', JStr (pi_id p)),
            (''errorCode'', opt_jv (field err_code) JUndef),
            (''errorType'', opt_jv (field err_type) JUndef)] w)"

definition handleChargeRefunded ::
  "webhook_env \<Rightarrow> webhook_deps \<Rightarrow> stripe_event \<Rightarrow> charge \<Rightarrow> world \<Rightarrow>
   (js_error + response) \<times> world" where
  "handleChargeRefunded env deps ev c w =
     (let currency = toUpperCase (ch_currency c);
          paymentIntentId = (case ch_payment_intent c of ExpId i \<Rightarrow> Some i | _ \<Rightarrow> None);
          prj = (if truthy paymentIntentId
                 then projects_findFirst_by_payment_intent (the paymentIntentId) (w_db w) else None)
      in case processStripeRefund deps
                \<lparr>rp_eventId = ev_id ev, rp_eventType = event_type (ev_object ev),
                 rp_chargeId = ch_id c, rp_paymentIntentId = paymentIntentId,
                 rp_refundAmount = ch_amount_refunded c, rp_originalAmount = ch_amount c,
                 rp_isFullRefund = ch_refunded c, rp_currency = currency,
                 rp_projectId = map_option prj_id prj\<rparr> (w_db w) of
           (Inl e, d1) \<Rightarrow> (Inl e, w\<lparr>w_db := d1\<rparr>)
         | (Inr result, d1) \<Rightarrow>
            (case notify env deps
                    \<lparr>n_type = Refund, n_amount = real_of_int (ch_amount_refunded c) / 100,
                     n_currency = currency,
                     n_projectName = or_else (case prj of None \<Rightarrow> [] | Some p \<Rightarrow> prj_name p)
                                       ''Unknown Project'',
                     n_projectId = map_option prj_id prj, n_chargeId = Some (ch_id c),
                     n_disputeId = None, n_reason = None, n_priority = None,
                     n_isPartialRefund = Some (\<not> ch_refunded c),
                     n_originalAmount = Some (real_of_int (ch_amount c) / 100)\<rparr>
                    (w\<lparr>w_db := d1\<rparr>) of
               (Inl e, w2) \<Rightarrow> (Inl e, w2)
             | (Inr _, w2) \<Rightarrow>
                 (Inr (json 200 [(''received'', JBool True),
                                 (''status'', JStr (if rr_success result then ''success'' else ''logged''))]),
                  w2)))"

fun truthy_expandable :: "expandable \<Rightarrow> bool" where
  "truthy_expandable (ExpId i) = (i \<noteq> [])"
| "truthy_expandable (ExpObject _) = True"
| "truthy_expandable ExpNull = False"

fun expandable_id :: "expandable \<Rightarrow> string option" where
  "expandable_id (ExpId i) = Some i"
| "expandable_id (ExpObject i) = Some i"
| "expandable_id ExpNull = None"

definition handleChargeDisputeCreated ::
  "webhook_env \<Rightarrow> webhook_deps \<Rightarrow> stripe_event \<Rightarrow> dispute \<Rightarrow> world \<Rightarrow>
   (js_error + response) \<times> world" where
  "handleChargeDisputeCreated env deps ev dp w =
     (let currency = toUpperCase (dp_currency dp);
          prj = (if truthy_expandable (dp_payment_intent dp)
                 then projects_findFirst_by_payment_intent (the (expandable_id (dp_payment_intent dp)))
                        (w_db w)
                 else None)
      in case payment_events_create
                \<lparr>row_provider = ''STRIPE'', row_eventId = ev_id ev,
                 row_eventType = event_type (ev_object ev), row_projectId = map_option prj_id prj,
                 row_status = DISPUTE, row_errorMsg = Some (''Dispute: '' @ dp_reason dp),
                 row_metadata =
                   [(''disputeId'', JStr (dp_id dp)),
                    (''chargeId'', opt_jv (expandable_id (dp_charge dp)) JUndef),
                    (''amount'', JInt (dp_amount dp)), (''currency'', JStr currency),
                    (''reason'', JStr (dp_reason dp)),
                    (''projectName'', opt_jv (map_option prj_name prj) JUndef)]\<rparr> (w_db w) of
           Inl e \<Rightarrow> (Inl e, w)
         | Inr d1 \<Rightarrow>
            (case notify env deps
                    \<lparr>n_type = Dispute, n_amount = real_of_int (dp_amount dp) / 100,
                     n_currency = currency,
                     n_projectName = or_else (case prj of None \<Rightarrow> [] | Some p \<Rightarrow> prj_name p)
                                       ''Unknown Project'',
                     n_projectId = map_option prj_id prj, n_chargeId = None,
                     n_disputeId = Some (dp_id dp), n_reason = Some (dp_reason dp),
                     n_priority = Some 1, n_isPartialRefund = None, n_originalAmount = None\<rparr>
                    (w\<lparr>w_db := d1\<rparr>) of
               (Inl e, w2) \<Rightarrow> (Inl e, w2)
             | (Inr _, w2) \<Rightarrow>
                 (Inr (json 200 [(''received'', JBool True), (''status'', JStr ''logged'')]), w2)))"

subsection \<open>The endpoint\<close>

text \<open>\<^verbatim>\<open>request.headers.get('x-forwarded-for')?.split(',')[0] || 'unknown'\<close>.\<close>

definition client_ip :: "webhook_request \<Rightarrow> string" where
  "client_ip req =
     (case x_forwarded_for req of
        None \<Rightarrow> ''unknown''
      | Some h \<Rightarrow> or_else (takeWhile (\<lambda>c. c \<noteq> CHR '','') h) ''unknown'')"

text \<open>The \<^verbatim>\<open>switch (event.type)\<close>.\<close>

definition dispatch ::
  "webhook_env \<Rightarrow> webhook_deps \<Rightarrow> int \<Rightarrow> stripe_event \<Rightarrow> world \<Rightarrow> (js_error + response) \<times> world" where
  "dispatch env deps now ev w =
     (case ev_object ev of
        CheckoutSessionCompleted s \<Rightarrow> handleCheckoutSessionCompleted env deps now ev s w
      | CheckoutSessionExpired s \<Rightarrow> handleCheckoutSessionExpired deps ev s w
      | PaymentIntentPaymentFailed p \<Rightarrow> handlePaymentIntentFailed ev p w
      | ChargeRefunded c \<Rightarrow> handleChargeRefunded env deps ev c w
      | ChargeDisputeCreated dp \<Rightarrow> handleChargeDisputeCreated env deps ev dp w
      | UnhandledEvent _ \<Rightarrow>
          (Inr (json 200 [(''received'', JBool True), (''status'', JStr ''unhandled'')]), w))"

text \<open>\<^verbatim>\<open>POST(request)\<close> of the webhook, at clock reading \<open>now\<close>.\<close>

definition POST ::
  "webhook_env \<Rightarrow> webhook_deps \<Rightarrow> int \<Rightarrow> webhook_request \<Rightarrow> world \<Rightarrow> response \<times> world" where
  "POST env deps now req w =
     (let (admitted, lim) = checkRateLimit_route (client_ip req) now (w_limiter w);
          w1 = w\<lparr>w_limiter := lim\<rparr>
      in if \<not> admitted then (json 429 [(''error'', JStr ''Rate limit exceeded'')], w1)
         else if \<not> truthy (STRIPE_WEBHOOK_SECRET env)
           then (json 500 [(''error'', JStr ''Webhook not configured'')], w1)
         else if \<not> truthy (stripe_signature req)
           then (json 400 [(''error'', JStr ''Missing signature'')], w1)
         else case raw_body req of
           None \<Rightarrow> (json 400 [(''error'', JStr ''Invalid body'')], w1)
         | Some rawBody \<Rightarrow>
            (case verifyStripeWebhook deps rawBody (the (stripe_signature req))
                    (the (STRIPE_WEBHOOK_SECRET env)) of
               Inl _ \<Rightarrow> (json 401 [(''error'', JStr ''Invalid signature'')], w1)
             | Inr ev \<Rightarrow>
                 if isEventProcessed (ev_id ev) (w_db w1)
                 then (json 200 [(''received'', JBool True), (''status'', JStr ''already_processed'')], w1)
                 else (case dispatch env deps now ev w1 of
                         (Inl _, w2) \<Rightarrow> (json 500 [(''error'', JStr ''Internal error'')], w2)
                       | (Inr r, w2) \<Rightarrow> (r, w2))))"

text \<open>
  The world after the route's limiter has admitted the request: only the limiter's counters
  differ from the world before.
\<close>

definition admitted_world :: "webhook_request \<Rightarrow> int \<Rightarrow> world \<Rightarrow> world" where
  "admitted_world req now w =
     w\<lparr>w_limiter := snd (checkRateLimit_route (client_ip req) now (w_limiter w))\<rparr>"

subsection \<open>A deployment for the examples\<close>

text \<open>
  The signature check of the examples accepts the signature \<^verbatim>\<open>good\<close> and reads the event
  off the body; the metadata keys are those the checkout route writes; the two processing
  functions report success and leave the database alone. None of this is the platform's.
\<close>

definition example_session :: "(string \<rightharpoonup> string) \<Rightarrow> checkout_session" where
  "example_session m =
     \<lparr>cs_id = ''cs_1'', cs_metadata = Some m, cs_customer_email = Some ''a@b.c'',
      cs_amount_total = Some 5000, cs_currency = Some ''cad'', cs_payment_intent = ExpId ''pi_1''\<rparr>"

definition example_event :: "string \<Rightarrow> stripe_event" where
  "example_event body =
     \<lparr>ev_id = ''evt_1'',
      ev_object =
        (if body = ''no-correlation''
         then CheckoutSessionCompleted (example_session Map.empty)
         else if body = ''no-correlation-production''
         then CheckoutSessionCompleted (example_session [''environment'' \<mapsto> ''production''])
         else if body = ''project-production''
         then CheckoutSessionCompleted
                (example_session [''environment'' \<mapsto> ''production'', ''project_public_id'' \<mapsto> ''P-1''])
         else UnhandledEvent body)\<rparr>"

definition example_deps :: webhook_deps where
  "example_deps =
     \<lparr>verifyStripeWebhook =
        (\<lambda>body signature secret.
           if signature = ''good'' then Inr (example_event body) else Inl ''signature mismatch''),
      PROJECT_PUBLIC_ID = ''project_public_id'',
      ENVIRONMENT = ''environment'',
      processStripeCheckoutCompleted =
        (\<lambda>p d. (Inr \<lparr>cr_success = True, cr_error = None, cr_unmatched = False,
                       cr_skipped = False, cr_projectId = None\<rparr>, d)),
      processStripeRefund =
        (\<lambda>p d. (Inr \<lparr>rr_success = True, rr_isPartial = False, rr_projectId = None,
                       rr_error = None\<rparr>, d)),
      pushover_fetch = (\<lambda>r. PushOk),
      currency_text = (\<lambda>c x. c)\<rparr>"

definition example_env :: webhook_env where
  "example_env =
     \<lparr>STRIPE_WEBHOOK_SECRET = Some ''whsec'', NODE_ENV = None, pushover = pushover_configured\<rparr>"

definition example_request :: "string option \<Rightarrow> string \<Rightarrow> webhook_request" where
  "example_request signature body =
     \<lparr>x_forwarded_for = Some ''203.0.113.7, 10.0.0.1'', stripe_signature = signature,
      raw_body = Some body\<rparr>"

definition empty_world :: world where
  "empty_world =
     \<lparr>w_db = \<lparr>payment_events = [], invoices = Map.empty, projects = []\<rparr>,
      w_limiter = \<lparr>rateLimitMap = [], lastCleanup = 0\<rparr>,
      w_pushes = []\<rparr>"

text \<open>The same world after the event \<^verbatim>\<open>evt_1\<close> has been recorded.\<close>

definition recorded_world :: world where
  "recorded_world =
     empty_world\<lparr>w_db := \<lparr>payment_events =
        [\<lparr>row_provider = ''STRIPE'', row_eventId = ''evt_1'',
          row_eventType = ''checkout.session.completed'', row_projectId = None,
          row_status = UNMATCHED, row_errorMsg = None, row_metadata = []\<rparr>],
        invoices = Map.empty, projects = []\<rparr>\<rparr>"

section \<open>Properties of the rate limiter\<close>

lemma inmem_open:
  assumes "m key = Some e" "\<not> now > entry_resetAt e"
  shows "fst (checkInMemoryRateLimit key w N now rnd m) =
           \<lparr>allowed = (count e + 1 \<le> N), remaining = max 0 (N - (count e + 1)), resetAt = entry_resetAt e\<rparr>"
    and "snd (checkInMemoryRateLimit key w N now rnd m) key = Some (e\<lparr>count := count e + 1\<rparr>)"
  using assms by (simp_all add: checkInMemoryRateLimit_def Let_def)

lemma inmem_fresh:
  assumes "case m key of None \<Rightarrow> True | Some e \<Rightarrow> now > entry_resetAt e"
  shows "fst (checkInMemoryRateLimit key w N now rnd m) =
           \<lparr>allowed = True, remaining = N - 1, resetAt = now + w * 1000\<rparr>"
    and "snd (checkInMemoryRateLimit key w N now rnd m) key = Some \<lparr>count = 1, entry_resetAt = now + w * 1000\<rparr>"
  using assms by (auto simp add: checkInMemoryRateLimit_def Let_def split: option.splits)

lemma checkRateLimit_fallback:
  assumes "runs_in_memory_limiter env store"
  shows "\<exists>r'. checkRateLimit env store ident p ns now rnd (m, r) =
          (fst (checkInMemoryRateLimit (rate_limit_key ident p ns) (window (RATE_LIMITS p)) (fallbackMax (RATE_LIMITS p)) now rnd m),
           snd (checkInMemoryRateLimit (rate_limit_key ident p ns) (window (RATE_LIMITS p)) (fallbackMax (RATE_LIMITS p)) now rnd m), r')"
proof (cases "redis_configured env")
  case False
  then show ?thesis by (simp add: checkRateLimit_def Let_def split: prod.splits)
next
  case True
  let ?key = "rate_limit_key ident p ns"
  from True assms have "fst (store now (INCR ?key) r) = FetchThrows" by (simp add: runs_in_memory_limiter_def)
  then obtain r' where "store now (INCR ?key) r = (FetchThrows, r')" by (cases "store now (INCR ?key) r") auto
  with True show ?thesis by (simp add: checkRateLimit_def redisCommand_def Let_def split: prod.splits)
qed

lemma upt_0_Suc_map: "[0..<Suc n] = 0 # map Suc [0..<n]"
  by (simp add: upt_conv_Cons map_Suc_upt del: upt_Suc)

lemma fallback_seq_open:
  assumes fb: "runs_in_memory_limiter env store"
  shows "m (rate_limit_key ident p ns) = Some e \<Longrightarrow> \<forall>c\<in>set cs. fst c \<le> entry_resetAt e \<Longrightarrow>
    fst (checkRateLimit_seq env store ident p ns cs (m, r)) =
      map (\<lambda>i. count e + 1 + int i \<le> fallbackMax (RATE_LIMITS p)) [0..<length cs]"
proof (induction cs arbitrary: m r e)
  case Nil
  then show ?case by simp
next
  case (Cons c cs)
  let ?key = "rate_limit_key ident p ns"
  let ?cim = "checkInMemoryRateLimit ?key (window (RATE_LIMITS p)) (fallbackMax (RATE_LIMITS p)) (fst c) (snd c) m"
  from checkRateLimit_fallback[OF fb] obtain r' where
    step: "checkRateLimit env store ident p ns (fst c) (snd c) (m, r) = (fst ?cim, snd ?cim, r')" by blast
  from Cons.prems have open_c: "\<not> fst c > entry_resetAt e" by auto
  have res: "fst ?cim = \<lparr>allowed = (count e + 1 \<le> fallbackMax (RATE_LIMITS p)),
      remaining = max 0 (fallbackMax (RATE_LIMITS p) - (count e + 1)), resetAt = entry_resetAt e\<rparr>"
    using inmem_open(1)[of m ?key e "fst c", OF Cons.prems(1) open_c] .
  have m': "snd ?cim ?key = Some (e\<lparr>count := count e + 1\<rparr>)"
    using inmem_open(2)[of m ?key e "fst c", OF Cons.prems(1) open_c] .
  have rest: "\<forall>c\<in>set cs. fst c \<le> entry_resetAt (e\<lparr>count := count e + 1\<rparr>)"
    using Cons.prems(2) by simp
  have IH: "fst (checkRateLimit_seq env store ident p ns cs (snd ?cim, r')) =
      map (\<lambda>i. count (e\<lparr>count := count e + 1\<rparr>) + 1 + int i \<le> fallbackMax (RATE_LIMITS p)) [0..<length cs]"
    using Cons.IH[where m = "snd ?cim" and e = "e\<lparr>count := count e + 1\<rparr>" and r = r', OF m' rest] .
  have "fst (checkRateLimit_seq env store ident p ns (c # cs) (m, r)) =
      allowed (fst ?cim) # fst (checkRateLimit_seq env store ident p ns cs (snd ?cim, r'))"
    by (simp add: step split: prod.splits)
  also have "\<dots> = (count e + 1 \<le> fallbackMax (RATE_LIMITS p)) #
      map (\<lambda>i. count e + 1 + 1 + int i \<le> fallbackMax (RATE_LIMITS p)) [0..<length cs]"
    by (simp add: res IH)
  also have "\<dots> = map (\<lambda>i. count e + 1 + int i \<le> fallbackMax (RATE_LIMITS p)) [0..<length (c # cs)]"
    by (simp add: upt_0_Suc_map comp_def add.assoc del: upt_Suc)
  finally show ?case .
qed

lemma fallback_seq_state:
  assumes fb: "runs_in_memory_limiter env store"
  shows "m (rate_limit_key ident p ns) = Some e \<Longrightarrow> \<forall>c\<in>set cs. fst c \<le> entry_resetAt e \<Longrightarrow>
    fst (snd (checkRateLimit_seq env store ident p ns cs (m, r))) (rate_limit_key ident p ns) =
      Some (e\<lparr>count := count e + int (length cs)\<rparr>)"
proof (induction cs arbitrary: m r e)
  case Nil
  then show ?case by simp
next
  case (Cons c cs)
  let ?key = "rate_limit_key ident p ns"
  let ?cim = "checkInMemoryRateLimit ?key (window (RATE_LIMITS p)) (fallbackMax (RATE_LIMITS p)) (fst c) (snd c) m"
  from checkRateLimit_fallback[OF fb] obtain r' where
    step: "checkRateLimit env store ident p ns (fst c) (snd c) (m, r) = (fst ?cim, snd ?cim, r')" by blast
  from Cons.prems have open_c: "\<not> fst c > entry_resetAt e" by auto
  have m': "snd ?cim ?key = Some (e\<lparr>count := count e + 1\<rparr>)"
    using inmem_open(2)[of m ?key e "fst c", OF Cons.prems(1) open_c] .
  have rest: "\<forall>c\<in>set cs. fst c \<le> entry_resetAt (e\<lparr>count := count e + 1\<rparr>)"
    using Cons.prems(2) by simp
  have IH: "fst (snd (checkRateLimit_seq env store ident p ns cs (snd ?cim, r'))) ?key =
      Some (e\<lparr>count := count e + 1\<rparr>\<lparr>count := count (e\<lparr>count := count e + 1\<rparr>) + int (length cs)\<rparr>)"
    using Cons.IH[where m = "snd ?cim" and e = "e\<lparr>count := count e + 1\<rparr>" and r = r', OF m' rest] .
  have "fst (snd (checkRateLimit_seq env store ident p ns (c # cs) (m, r))) ?key =
      fst (snd (checkRateLimit_seq env store ident p ns cs (snd ?cim, r'))) ?key"
    by (simp add: step split: prod.splits)
  then show ?case by (simp add: IH add.assoc)
qed

lemma redis_step_open:
  assumes cfg: "redis_configured env"
    and ent: "r (rate_limit_key ident p ns) = Some x" "expireAt x = Some X" "now < X" "1 \<le> val x"
  shows "fst (checkRateLimit env redis_store ident p ns now rnd (m, r)) =
           \<lparr>allowed = (val x + 1 \<le> max_requests (RATE_LIMITS p)),
            remaining = max 0 (max_requests (RATE_LIMITS p) - (val x + 1)),
            resetAt = now + (if (X - now + 500) div 1000 > 0 then (X - now + 500) div 1000 * 1000
                             else window (RATE_LIMITS p) * 1000)\<rparr>"
    and "snd (checkRateLimit env redis_store ident p ns now rnd (m, r)) =
           (m, r(rate_limit_key ident p ns \<mapsto> x\<lparr>val := val x + 1\<rparr>))"
  using assms
  by (simp_all add: checkRateLimit_def redisCommand_def redis_live_def Let_def)

lemma redis_step_fresh:
  assumes cfg: "redis_configured env"
    and ent: "redis_live now r (rate_limit_key ident p ns) = None"
  shows "allowed (fst (checkRateLimit env redis_store ident p ns now rnd (m, r))) =
           (1 \<le> max_requests (RATE_LIMITS p))"
    and "snd (checkRateLimit env redis_store ident p ns now rnd (m, r)) =
           (m, r(rate_limit_key ident p ns \<mapsto>
                  \<lparr>val = 1, expireAt = Some (now + window (RATE_LIMITS p) * 1000)\<rparr>))"
  using assms
  by (simp_all add: checkRateLimit_def redisCommand_def redis_live_def Let_def)

lemma redis_seq_open:
  assumes cfg: "redis_configured env"
  shows "r (rate_limit_key ident p ns) = Some x \<Longrightarrow> expireAt x = Some X \<Longrightarrow> 1 \<le> val x \<Longrightarrow>
    \<forall>c\<in>set cs. fst c < X \<Longrightarrow>
    fst (checkRateLimit_seq env redis_store ident p ns cs (m, r)) =
        map (\<lambda>i. val x + 1 + int i \<le> max_requests (RATE_LIMITS p)) [0..<length cs]
    \<and> snd (snd (checkRateLimit_seq env redis_store ident p ns cs (m, r))) (rate_limit_key ident p ns) =
        Some (x\<lparr>val := val x + int (length cs)\<rparr>)"
proof (induction cs arbitrary: r x)
  case Nil
  then show ?case by simp
next
  case (Cons c cs)
  let ?key = "rate_limit_key ident p ns"
  let ?x' = "x\<lparr>val := val x + 1\<rparr>"
  let ?r' = "r(?key \<mapsto> ?x')"
  from Cons.prems have now: "fst c < X" by simp
  have al: "allowed (fst (checkRateLimit env redis_store ident p ns (fst c) (snd c) (m, r))) =
      (val x + 1 \<le> max_requests (RATE_LIMITS p))"
    using redis_step_open(1)[where r = r and ident = ident and p = p and ns = ns and x = x and m = m and rnd = "snd c", OF cfg Cons.prems(1) Cons.prems(2) now Cons.prems(3)] by simp
  have st: "snd (checkRateLimit env redis_store ident p ns (fst c) (snd c) (m, r)) = (m, ?r')"
    using redis_step_open(2)[where r = r and ident = ident and p = p and ns = ns and x = x and m = m and rnd = "snd c", OF cfg Cons.prems(1) Cons.prems(2) now Cons.prems(3)] .
  have p1: "?r' ?key = Some ?x'" by simp
  have p2: "expireAt ?x' = Some X" using Cons.prems(2) by simp
  have p3: "1 \<le> val ?x'" using Cons.prems(3) by simp
  have p4: "\<forall>c\<in>set cs. fst c < X" using Cons.prems(4) by simp
  note IH0 = Cons.IH[where r = ?r' and x = ?x', OF p1 p2 p3 p4]
  have IH1: "fst (checkRateLimit_seq env redis_store ident p ns cs (m, ?r')) =
        map (\<lambda>i. val ?x' + 1 + int i \<le> max_requests (RATE_LIMITS p)) [0..<length cs]"
    using IH0 by (rule conjunct1)
  have IH2: "snd (snd (checkRateLimit_seq env redis_store ident p ns cs (m, ?r'))) ?key =
        Some (?x'\<lparr>val := val ?x' + int (length cs)\<rparr>)"
    using IH0 by (rule conjunct2)
  obtain res where step: "checkRateLimit env redis_store ident p ns (fst c) (snd c) (m, r) = (res, m, ?r')"
    using st by (cases "checkRateLimit env redis_store ident p ns (fst c) (snd c) (m, r)") simp
  with al have res: "allowed res = (val x + 1 \<le> max_requests (RATE_LIMITS p))" by simp
  have "fst (checkRateLimit_seq env redis_store ident p ns (c # cs) (m, r)) =
      allowed res # fst (checkRateLimit_seq env redis_store ident p ns cs (m, ?r'))"
    by (simp add: step split: prod.splits)
  also have "\<dots> = (val x + 1 \<le> max_requests (RATE_LIMITS p)) #
      map (\<lambda>i. val x + 1 + 1 + int i \<le> max_requests (RATE_LIMITS p)) [0..<length cs]"
    by (simp add: IH1 res)
  also have "\<dots> = map (\<lambda>i. val x + 1 + int i \<le> max_requests (RATE_LIMITS p)) [0..<length (c # cs)]"
    by (simp add: upt_0_Suc_map comp_def add.assoc del: upt_Suc)
  finally have A: "fst (checkRateLimit_seq env redis_store ident p ns (c # cs) (m, r)) =
      map (\<lambda>i. val x + 1 + int i \<le> max_requests (RATE_LIMITS p)) [0..<length (c # cs)]" .
  have "snd (snd (checkRateLimit_seq env redis_store ident p ns (c # cs) (m, r))) ?key =
      snd (snd (checkRateLimit_seq env redis_store ident p ns cs (m, ?r'))) ?key"
    by (simp add: step split: prod.splits)
  also have "\<dots> = Some (x\<lparr>val := val x + int (length (c # cs))\<rparr>)"
    by (simp add: IH2 add.assoc)
  finally have B: "snd (snd (checkRateLimit_seq env redis_store ident p ns (c # cs) (m, r))) ?key =
     Some (x\<lparr>val := val x + int (length (c # cs))\<rparr>)" .
  from A B show ?case by (rule conjI)
qed

lemma allowed_pattern:
  assumes "int n = N" "1 \<le> n"
  shows "True # map (\<lambda>i. (1::int) + 1 + int i \<le> N) [0..<n] = replicate n True @ [False]"
proof (rule nth_equalityI)
  show "length (True # map (\<lambda>i. (1::int) + 1 + int i \<le> N) [0..<n]) = length (replicate n True @ [False])"
    by simp
next
  fix i assume "i < length (True # map (\<lambda>i. (1::int) + 1 + int i \<le> N) [0..<n])"
  then have i: "i \<le> n" by simp
  show "(True # map (\<lambda>i. (1::int) + 1 + int i \<le> N) [0..<n]) ! i = (replicate n True @ [False]) ! i"
  proof (cases i)
    case 0
    with assms show ?thesis by (simp add: nth_append)
  next
    case (Suc j)
    with i assms show ?thesis by (auto simp add: nth_append)
  qed
qed

lemma effective_max_pos: "1 \<le> effective_max env p"
  by (cases p) (simp_all add: effective_max_def)

lemma seq_Cons_fst:
  "fst (checkRateLimit_seq env store ident p ns (c # cs) s) =
     allowed (fst (checkRateLimit env store ident p ns (fst c) (snd c) s)) #
     fst (checkRateLimit_seq env store ident p ns cs (snd (checkRateLimit env store ident p ns (fst c) (snd c) s)))"
  by (simp split: prod.splits)

lemma seq_Cons_snd:
  "snd (checkRateLimit_seq env store ident p ns (c # cs) s) =
     snd (checkRateLimit_seq env store ident p ns cs (snd (checkRateLimit env store ident p ns (fst c) (snd c) s)))"
  by (simp split: prod.splits)

lemma fallback_first:
  assumes fb: "runs_in_memory_limiter env store"
    and fresh: "case m (rate_limit_key ident p ns) of None \<Rightarrow> True | Some e \<Rightarrow> now > entry_resetAt e"
  shows "allowed (fst (checkRateLimit env store ident p ns now rnd (m, r)))"
    and "fst (snd (checkRateLimit env store ident p ns now rnd (m, r))) (rate_limit_key ident p ns) =
           Some \<lparr>count = 1, entry_resetAt = now + window (RATE_LIMITS p) * 1000\<rparr>"
proof -
  let ?key = "rate_limit_key ident p ns"
  let ?cim = "checkInMemoryRateLimit ?key (window (RATE_LIMITS p)) (fallbackMax (RATE_LIMITS p)) now rnd m"
  from checkRateLimit_fallback[OF fb] obtain r' where
    step: "checkRateLimit env store ident p ns now rnd (m, r) = (fst ?cim, snd ?cim, r')" by blast
  show "allowed (fst (checkRateLimit env store ident p ns now rnd (m, r)))"
    using inmem_fresh(1)[where m = m and key = ?key and now = now, OF fresh] by (simp add: step)
  show "fst (snd (checkRateLimit env store ident p ns now rnd (m, r))) ?key =
           Some \<lparr>count = 1, entry_resetAt = now + window (RATE_LIMITS p) * 1000\<rparr>"
    using inmem_fresh(2)[where m = m and key = ?key and now = now, OF fresh] by (simp add: step)
qed

lemma window_limit_fallback:
  assumes fb: "runs_in_memory_limiter env store"
    and fresh: "case m (rate_limit_key ident p ns) of None \<Rightarrow> True | Some e \<Rightarrow> t0 > entry_resetAt e"
    and inwin: "\<forall>c\<in>set cs. fst c \<le> t0 + window (RATE_LIMITS p) * 1000"
    and len: "int (length cs) = fallbackMax (RATE_LIMITS p)"
  shows "fst (checkRateLimit_seq env store ident p ns ((t0, x0) # cs) (m, r)) =
           replicate (length cs) True @ [False]"
    and "t0 + window (RATE_LIMITS p) * 1000 < t' \<Longrightarrow>
         allowed (fst (checkRateLimit env store ident p ns t' x'
            (snd (checkRateLimit_seq env store ident p ns ((t0, x0) # cs) (m, r)))))"
proof -
  let ?key = "rate_limit_key ident p ns"
  let ?R = "t0 + window (RATE_LIMITS p) * 1000"
  let ?s1 = "snd (checkRateLimit env store ident p ns t0 x0 (m, r))"
  let ?e1 = "\<lparr>count = 1, entry_resetAt = ?R\<rparr>"
  have a0: "allowed (fst (checkRateLimit env store ident p ns t0 x0 (m, r)))"
    using fallback_first(1)[where m = m and ident = ident and p = p and ns = ns and now = t0, OF fb fresh] .
  have m1: "fst ?s1 ?key = Some ?e1"
    using fallback_first(2)[where m = m and ident = ident and p = p and ns = ns and now = t0, OF fb fresh] .
  have inwin': "\<forall>c\<in>set cs. fst c \<le> entry_resetAt ?e1" using inwin by simp
  have flags: "fst (checkRateLimit_seq env store ident p ns cs (fst ?s1, snd ?s1)) =
      map (\<lambda>i. count ?e1 + 1 + int i \<le> fallbackMax (RATE_LIMITS p)) [0..<length cs]"
    using fallback_seq_open[where m = "fst ?s1" and e = ?e1 and ident = ident and p = p and ns = ns and cs = cs and r = "snd ?s1", OF fb m1 inwin'] .
  have final: "fst (snd (checkRateLimit_seq env store ident p ns cs (fst ?s1, snd ?s1))) ?key =
      Some (?e1\<lparr>count := count ?e1 + int (length cs)\<rparr>)"
    using fallback_seq_state[where m = "fst ?s1" and e = ?e1 and ident = ident and p = p and ns = ns and cs = cs and r = "snd ?s1", OF fb m1 inwin'] .
  have pos: "1 \<le> length cs" using len by (cases p) auto
  show "fst (checkRateLimit_seq env store ident p ns ((t0, x0) # cs) (m, r)) =
           replicate (length cs) True @ [False]"
  proof -
    have "fst (checkRateLimit_seq env store ident p ns ((t0, x0) # cs) (m, r)) =
        allowed (fst (checkRateLimit env store ident p ns t0 x0 (m, r))) #
        fst (checkRateLimit_seq env store ident p ns cs ?s1)"
      by (simp only: seq_Cons_fst fst_conv snd_conv)
    also have "\<dots> = True # map (\<lambda>i. 1 + 1 + int i \<le> fallbackMax (RATE_LIMITS p)) [0..<length cs]"
      using a0 flags by simp
    also have "\<dots> = replicate (length cs) True @ [False]"
      by (rule allowed_pattern[OF len pos])
    finally show ?thesis .
  qed
  assume late: "?R < t'"
  let ?sf = "snd (checkRateLimit_seq env store ident p ns ((t0, x0) # cs) (m, r))"
  have "fst ?sf ?key = Some (?e1\<lparr>count := count ?e1 + int (length cs)\<rparr>)"
    using final by (simp only: seq_Cons_snd fst_conv snd_conv prod.collapse)
  then have fresh': "case fst ?sf ?key of None \<Rightarrow> True | Some e \<Rightarrow> t' > entry_resetAt e"
    using late by simp
  show "allowed (fst (checkRateLimit env store ident p ns t' x' ?sf))"
    using fallback_first(1)[where m = "fst ?sf" and r = "snd ?sf" and ident = ident and p = p and ns = ns and now = t', OF fb fresh'] by simp
qed

lemma window_limit_redis:
  assumes cfg: "redis_configured env"
    and fresh: "redis_live t0 r (rate_limit_key ident p ns) = None"
    and inwin: "\<forall>c\<in>set cs. fst c < t0 + window (RATE_LIMITS p) * 1000"
    and len: "int (length cs) = max_requests (RATE_LIMITS p)"
  shows "fst (checkRateLimit_seq env redis_store ident p ns ((t0, x0) # cs) (m, r)) =
           replicate (length cs) True @ [False]"
    and "t0 + window (RATE_LIMITS p) * 1000 < t' \<Longrightarrow>
         allowed (fst (checkRateLimit env redis_store ident p ns t' x'
            (snd (checkRateLimit_seq env redis_store ident p ns ((t0, x0) # cs) (m, r)))))"
proof -
  let ?key = "rate_limit_key ident p ns"
  let ?R = "t0 + window (RATE_LIMITS p) * 1000"
  let ?x1 = "\<lparr>val = 1, expireAt = Some ?R\<rparr>"
  let ?r1 = "r(?key \<mapsto> ?x1)"
  have maxpos: "1 \<le> max_requests (RATE_LIMITS p)" by (cases p) simp_all
  have a0: "allowed (fst (checkRateLimit env redis_store ident p ns t0 x0 (m, r)))"
    using redis_step_fresh(1)[where r = r and ident = ident and p = p and ns = ns and now = t0 and m = m and rnd = x0, OF cfg fresh] maxpos
    by simp
  have s1: "snd (checkRateLimit env redis_store ident p ns t0 x0 (m, r)) = (m, ?r1)"
    using redis_step_fresh(2)[where r = r and ident = ident and p = p and ns = ns and now = t0 and m = m and rnd = x0, OF cfg fresh] .
  have p1: "?r1 ?key = Some ?x1" by simp
  have p2: "expireAt ?x1 = Some ?R" by simp
  have p3: "1 \<le> val ?x1" by simp
  note seq = redis_seq_open[where r = ?r1 and x = ?x1 and X = ?R and ident = ident and p = p and ns = ns and cs = cs and m = m,
      OF cfg p1 p2 p3 inwin]
  have flags: "fst (checkRateLimit_seq env redis_store ident p ns cs (m, ?r1)) =
      map (\<lambda>i. val ?x1 + 1 + int i \<le> max_requests (RATE_LIMITS p)) [0..<length cs]"
    using seq by (rule conjunct1)
  have final: "snd (snd (checkRateLimit_seq env redis_store ident p ns cs (m, ?r1))) ?key =
      Some (?x1\<lparr>val := val ?x1 + int (length cs)\<rparr>)"
    using seq by (rule conjunct2)
  have pos: "1 \<le> length cs" using len maxpos by simp
  show "fst (checkRateLimit_seq env redis_store ident p ns ((t0, x0) # cs) (m, r)) =
           replicate (length cs) True @ [False]"
  proof -
    have "fst (checkRateLimit_seq env redis_store ident p ns ((t0, x0) # cs) (m, r)) =
        allowed (fst (checkRateLimit env redis_store ident p ns t0 x0 (m, r))) #
        fst (checkRateLimit_seq env redis_store ident p ns cs (m, ?r1))"
      by (simp only: seq_Cons_fst fst_conv snd_conv s1)
    also have "\<dots> = True # map (\<lambda>i. 1 + 1 + int i \<le> max_requests (RATE_LIMITS p)) [0..<length cs]"
      using a0 flags by simp
    also have "\<dots> = replicate (length cs) True @ [False]"
      by (rule allowed_pattern[OF len pos])
    finally show ?thesis .
  qed
  assume late: "?R < t'"
  let ?sf = "snd (checkRateLimit_seq env redis_store ident p ns ((t0, x0) # cs) (m, r))"
  have sf: "?sf = snd (checkRateLimit_seq env redis_store ident p ns cs (m, ?r1))"
    by (simp only: seq_Cons_snd fst_conv snd_conv s1)
  have "snd ?sf ?key = Some (?x1\<lparr>val := val ?x1 + int (length cs)\<rparr>)"
    using final by (simp only: sf)
  then have dead: "redis_live t' (snd ?sf) ?key = None"
    using late by (simp add: redis_live_def)
  have "allowed (fst (checkRateLimit env redis_store ident p ns t' x' (fst ?sf, snd ?sf)))"
    using redis_step_fresh(1)[where r = "snd ?sf" and ident = ident and p = p and ns = ns and now = t' and m = "fst ?sf" and rnd = x', OF cfg dead] maxpos
    by simp
  then show "allowed (fst (checkRateLimit env redis_store ident p ns t' x' ?sf))"
    by (simp only: prod.collapse)
qed

text \<open>
  C7. Let \<open>N\<close> be the per-window maximum in force for the preset (\<^verbatim>\<open>max\<close> with the durable
  store configured, \<^verbatim>\<open>fallbackMax\<close> without it). When no window is open for the key at
  \<open>t0\<close>, a call at \<open>t0\<close> followed by \<open>N\<close> calls before the window's reset time gives
  \<^verbatim>\<open>allowed = true\<close> for the first \<open>N\<close> of these \<open>N + 1\<close> calls and \<^verbatim>\<open>allowed = false\<close> for
  the last; and a call after the reset time is allowed again. The durable path runs
  against \<open>redis_store\<close>; clean-up draws are arbitrary.
\<close>

theorem checkRateLimit_window_limit:
  assumes fresh: "no_open_window env (rate_limit_key ident p ns) t0 (m, r)"
    and inwin: "\<forall>c\<in>set cs. fst c < t0 + window (RATE_LIMITS p) * 1000"
    and len: "int (length cs) = effective_max env p"
  shows "fst (checkRateLimit_seq env redis_store ident p ns ((t0, x0) # cs) (m, r)) =
           replicate (length cs) True @ [False]
       \<and> (\<forall>t' x'. t0 + window (RATE_LIMITS p) * 1000 < t' \<longrightarrow>
            allowed (fst (checkRateLimit env redis_store ident p ns t' x'
              (snd (checkRateLimit_seq env redis_store ident p ns ((t0, x0) # cs) (m, r))))))"
proof (cases "redis_configured env")
  case True
  from fresh True have f: "redis_live t0 r (rate_limit_key ident p ns) = None"
    by (simp add: no_open_window_def)
  from len True have l: "int (length cs) = max_requests (RATE_LIMITS p)"
    by (simp add: effective_max_def)
  show ?thesis
    using window_limit_redis(1)[OF True f inwin l] window_limit_redis(2)[OF True f inwin l]
    by blast
next
  case False
  then have fb: "runs_in_memory_limiter env redis_store" by (simp add: runs_in_memory_limiter_def)
  from fresh False have f: "case m (rate_limit_key ident p ns) of None \<Rightarrow> True | Some e \<Rightarrow> t0 > entry_resetAt e"
    by (simp add: no_open_window_def)
  from len False have l: "int (length cs) = fallbackMax (RATE_LIMITS p)"
    by (simp add: effective_max_def)
  from inwin have i: "\<forall>c\<in>set cs. fst c \<le> t0 + window (RATE_LIMITS p) * 1000" by auto
  show ?thesis
    using window_limit_fallback(1)[where m = m, OF fb f i l] window_limit_fallback(2)[where m = m, OF fb f i l]
    by blast
qed

lemma count_allowed_le:
  "length (filter (\<lambda>i. c + int i \<le> N) [0..<n]) \<le> nat (N - c + 1)"
proof (induction n)
  case 0
  then show ?case by simp
next
  case (Suc n)
  show ?case
  proof (cases "c + int n \<le> N")
    case True
    have "length (filter (\<lambda>i. c + int i \<le> N) [0..<n]) \<le> n"
      using length_filter_le[of "\<lambda>i. c + int i \<le> N" "[0..<n]"] by simp
    with True show ?thesis by simp
  next
    case False
    with Suc show ?thesis by simp
  qed
qed

text \<open>
  Where the code does run the in-memory limiter (credentials not configured, or \<^verbatim>\<open>fetch\<close>
  throwing), \<^verbatim>\<open>checkRateLimit\<close> answers exactly what \<^verbatim>\<open>checkInMemoryRateLimit\<close> answers
  with the preset's \<^verbatim>\<open>fallbackMax\<close>; in the window opened by a call at \<open>t0\<close>, however many
  calls follow before the reset time, at most \<^verbatim>\<open>fallbackMax\<close> of them are allowed; and
  \<^verbatim>\<open>fallbackMax < max\<close> in every preset.
\<close>

lemma checkRateLimit_fallback_bounded:
  assumes fb: "runs_in_memory_limiter env store"
  shows "(\<exists>r'. checkRateLimit env store ident p ns now rnd (m, r) =
            (fst (checkInMemoryRateLimit (rate_limit_key ident p ns) (window (RATE_LIMITS p))
                    (fallbackMax (RATE_LIMITS p)) now rnd m),
             snd (checkInMemoryRateLimit (rate_limit_key ident p ns) (window (RATE_LIMITS p))
                    (fallbackMax (RATE_LIMITS p)) now rnd m), r'))
       \<and> ((case m (rate_limit_key ident p ns) of None \<Rightarrow> True | Some e \<Rightarrow> t0 > entry_resetAt e) \<and>
          (\<forall>c\<in>set cs. fst c \<le> t0 + window (RATE_LIMITS p) * 1000) \<longrightarrow>
          int (length (filter id (fst (checkRateLimit_seq env store ident p ns ((t0, x0) # cs) (m, r)))))
            \<le> fallbackMax (RATE_LIMITS p))
       \<and> fallbackMax (RATE_LIMITS p) < max_requests (RATE_LIMITS p)"
proof (intro conjI impI)
  show "\<exists>r'. checkRateLimit env store ident p ns now rnd (m, r) =
            (fst (checkInMemoryRateLimit (rate_limit_key ident p ns) (window (RATE_LIMITS p))
                    (fallbackMax (RATE_LIMITS p)) now rnd m),
             snd (checkInMemoryRateLimit (rate_limit_key ident p ns) (window (RATE_LIMITS p))
                    (fallbackMax (RATE_LIMITS p)) now rnd m), r')"
    by (rule checkRateLimit_fallback[OF fb])
next
  show "fallbackMax (RATE_LIMITS p) < max_requests (RATE_LIMITS p)"
    by (cases p) simp_all
next
  let ?key = "rate_limit_key ident p ns"
  let ?R = "t0 + window (RATE_LIMITS p) * 1000"
  let ?N = "fallbackMax (RATE_LIMITS p)"
  let ?s1 = "snd (checkRateLimit env store ident p ns t0 x0 (m, r))"
  let ?e1 = "\<lparr>count = 1, entry_resetAt = ?R\<rparr>"
  assume h: "(case m ?key of None \<Rightarrow> True | Some e \<Rightarrow> t0 > entry_resetAt e) \<and> (\<forall>c\<in>set cs. fst c \<le> ?R)"
  then have fresh: "case m ?key of None \<Rightarrow> True | Some e \<Rightarrow> t0 > entry_resetAt e"
    and inwin: "\<forall>c\<in>set cs. fst c \<le> ?R" by blast+
  have m1: "fst ?s1 ?key = Some ?e1"
    using fallback_first(2)[where m = m and ident = ident and p = p and ns = ns and now = t0, OF fb fresh] .
  have inwin': "\<forall>c\<in>set cs. fst c \<le> entry_resetAt ?e1" using inwin by simp
  have flags: "fst (checkRateLimit_seq env store ident p ns cs (fst ?s1, snd ?s1)) =
      map (\<lambda>i. count ?e1 + 1 + int i \<le> ?N) [0..<length cs]"
    using fallback_seq_open[where m = "fst ?s1" and e = ?e1 and ident = ident and p = p and ns = ns and cs = cs and r = "snd ?s1", OF fb m1 inwin'] .
  define L where "L = fst (checkRateLimit_seq env store ident p ns ((t0, x0) # cs) (m, r))"
  have "L = allowed (fst (checkRateLimit env store ident p ns t0 x0 (m, r))) #
        fst (checkRateLimit_seq env store ident p ns cs ?s1)"
    unfolding L_def by (simp only: seq_Cons_fst fst_conv snd_conv)
  then obtain a where L: "L = a # map (\<lambda>i. (2::int) + int i \<le> ?N) [0..<length cs]"
    using flags by simp
  have "length (filter id L) \<le> 1 + length (filter id (map (\<lambda>i. (2::int) + int i \<le> ?N) [0..<length cs]))"
    by (simp add: L)
  also have "\<dots> = 1 + length (filter (\<lambda>i. (2::int) + int i \<le> ?N) [0..<length cs])"
    by (simp add: filter_map comp_def)
  also have "\<dots> \<le> 1 + nat (?N - 2 + 1)"
    using count_allowed_le[of 2 ?N "length cs"] by simp
  finally have le: "length (filter id L) \<le> 1 + nat (?N - 2 + 1)" .
  have pos: "1 \<le> ?N" by (cases p) simp_all
  from le pos have "int (length (filter id L)) \<le> ?N" by linarith
  then show "int (length (filter id (fst (checkRateLimit_seq env store ident p ns ((t0, x0) # cs) (m, r))))) \<le> ?N"
    unfolding L_def .
qed

theorem checkRateLimit_window_limit_witness:
  "(no_open_window env_unconfigured (rate_limit_key ''10.0.0.1'' AUTH None) 0 (Map.empty, Map.empty)
    \<and> list_all (\<lambda>c. fst c < (0::int) + window (RATE_LIMITS AUTH) * 1000)
          [(1, 1/2), (2, 0), (60000 - 1, 1/2)]
    \<and> int (length [(1::int, 1/2::real), (2, 0), (60000 - 1, 1/2)]) = effective_max env_unconfigured AUTH
    \<and> fst (checkRateLimit_seq env_unconfigured redis_store ''10.0.0.1'' AUTH None
             [(0, 1/2), (1, 1/2), (2, 0), (60000 - 1, 1/2)] (Map.empty, Map.empty))
         = [True, True, True, False]
    \<and> allowed (fst (checkRateLimit env_unconfigured redis_store ''10.0.0.1'' AUTH None 60001 (1/2)
         (snd (checkRateLimit_seq env_unconfigured redis_store ''10.0.0.1'' AUTH None
             [(0, 1/2), (1, 1/2), (2, 0), (60000 - 1, 1/2)] (Map.empty, Map.empty))))))
   \<and> (no_open_window env_configured (rate_limit_key ''10.0.0.1'' AUTH None) 0 (Map.empty, Map.empty)
    \<and> list_all (\<lambda>c. fst c < (0::int) + window (RATE_LIMITS AUTH) * 1000)
          [(1, 1/2), (2, 0), (3, 0), (4, 0), (60000 - 1, 1/2)]
    \<and> int (length [(1::int, 1/2::real), (2, 0), (3, 0), (4, 0), (60000 - 1, 1/2)])
         = effective_max env_configured AUTH
    \<and> fst (checkRateLimit_seq env_configured redis_store ''10.0.0.1'' AUTH None
             [(0, 1/2), (1, 1/2), (2, 0), (3, 0), (4, 0), (60000 - 1, 1/2)] (Map.empty, Map.empty))
         = [True, True, True, True, True, False]
    \<and> allowed (fst (checkRateLimit env_configured redis_store ''10.0.0.1'' AUTH None 60001 (1/2)
         (snd (checkRateLimit_seq env_configured redis_store ''10.0.0.1'' AUTH None
             [(0, 1/2), (1, 1/2), (2, 0), (3, 0), (4, 0), (60000 - 1, 1/2)] (Map.empty, Map.empty))))))"
proof (rule conjI)
  have f: "no_open_window env_unconfigured (rate_limit_key ''10.0.0.1'' AUTH None) 0
             (Map.empty, Map.empty)"
    by (simp add: no_open_window_def env_unconfigured_def redis_configured_def)
  have i: "\<forall>c\<in>set [(1, 1/2), (2, 0), (60000 - 1, 1/2)].
             fst c < (0::int) + window (RATE_LIMITS AUTH) * 1000"
    by simp
  have l: "int (length [(1::int, 1/2::real), (2, 0), (60000 - 1, 1/2)])
             = effective_max env_unconfigured AUTH"
    by (simp add: effective_max_def env_unconfigured_def redis_configured_def)
  show "no_open_window env_unconfigured (rate_limit_key ''10.0.0.1'' AUTH None) 0 (Map.empty, Map.empty)
    \<and> list_all (\<lambda>c. fst c < (0::int) + window (RATE_LIMITS AUTH) * 1000)
          [(1, 1/2), (2, 0), (60000 - 1, 1/2)]
    \<and> int (length [(1::int, 1/2::real), (2, 0), (60000 - 1, 1/2)]) = effective_max env_unconfigured AUTH
    \<and> fst (checkRateLimit_seq env_unconfigured redis_store ''10.0.0.1'' AUTH None
             [(0, 1/2), (1, 1/2), (2, 0), (60000 - 1, 1/2)] (Map.empty, Map.empty))
         = [True, True, True, False]
    \<and> allowed (fst (checkRateLimit env_unconfigured redis_store ''10.0.0.1'' AUTH None 60001 (1/2)
         (snd (checkRateLimit_seq env_unconfigured redis_store ''10.0.0.1'' AUTH None
             [(0, 1/2), (1, 1/2), (2, 0), (60000 - 1, 1/2)] (Map.empty, Map.empty)))))"
    using f i l checkRateLimit_window_limit[OF f i l, of "1/2"]
    by simp
next
  have f: "no_open_window env_configured (rate_limit_key ''10.0.0.1'' AUTH None) 0
             (Map.empty, Map.empty)"
    by (simp add: no_open_window_def env_configured_def redis_configured_def redis_live_def)
  have i: "\<forall>c\<in>set [(1, 1/2), (2, 0), (3, 0), (4, 0), (60000 - 1, 1/2)].
             fst c < (0::int) + window (RATE_LIMITS AUTH) * 1000"
    by simp
  have l: "int (length [(1::int, 1/2::real), (2, 0), (3, 0), (4, 0), (60000 - 1, 1/2)])
             = effective_max env_configured AUTH"
    by (simp add: effective_max_def env_configured_def redis_configured_def)
  show "no_open_window env_configured (rate_limit_key ''10.0.0.1'' AUTH None) 0 (Map.empty, Map.empty)
    \<and> list_all (\<lambda>c. fst c < (0::int) + window (RATE_LIMITS AUTH) * 1000)
          [(1, 1/2), (2, 0), (3, 0), (4, 0), (60000 - 1, 1/2)]
    \<and> int (length [(1::int, 1/2::real), (2, 0), (3, 0), (4, 0), (60000 - 1, 1/2)])
         = effective_max env_configured AUTH
    \<and> fst (checkRateLimit_seq env_configured redis_store ''10.0.0.1'' AUTH None
             [(0, 1/2), (1, 1/2), (2, 0), (3, 0), (4, 0), (60000 - 1, 1/2)] (Map.empty, Map.empty))
         = [True, True, True, True, True, False]
    \<and> allowed (fst (checkRateLimit env_configured redis_store ''10.0.0.1'' AUTH None 60001 (1/2)
         (snd (checkRateLimit_seq env_configured redis_store ''10.0.0.1'' AUTH None
             [(0, 1/2), (1, 1/2), (2, 0), (3, 0), (4, 0), (60000 - 1, 1/2)] (Map.empty, Map.empty)))))"
    using f i l checkRateLimit_window_limit[OF f i l, of "1/2"]
    by simp
qed

text \<open>One call against a store that answers every command with a non-OK status.\<close>

lemma checkRateLimit_not_ok_allows:
  assumes "redis_configured env" and "\<forall>t c r. fst (store t c r) = NotOk"
  shows "allowed (fst (checkRateLimit env store ident p ns now rnd (m, r)))"
    and "fst (snd (checkRateLimit env store ident p ns now rnd (m, r))) = m"
proof -
  let ?key = "rate_limit_key ident p ns"
  from assms(2) obtain r1 where i: "store now (INCR ?key) r = (NotOk, r1)"
    by (metis prod.collapse)
  from assms(2) obtain r2 where t: "store now (TTL ?key) r1 = (NotOk, r2)"
    by (metis prod.collapse)
  have pos: "0 \<le> max_requests (RATE_LIMITS p)" by (cases p) simp_all
  show "allowed (fst (checkRateLimit env store ident p ns now rnd (m, r)))"
    using assms(1) i t pos by (simp add: checkRateLimit_def redisCommand_def Let_def)
  show "fst (snd (checkRateLimit env store ident p ns now rnd (m, r))) = m"
    using assms(1) i t by (simp add: checkRateLimit_def redisCommand_def Let_def)
qed

text \<open>
  C8 asks that with the durable store out of service \<^verbatim>\<open>checkRateLimit\<close> fall back to the
  in-process limiter and requests stay bounded. It does so when the store is not configured
  and when \<^verbatim>\<open>fetch\<close> throws (\<open>checkRateLimit_fallback_bounded\<close>). It does not when the
  store is configured and answers every command with a non-OK status: \<^verbatim>\<open>redisCommand\<close> logs
  the error and returns \<^verbatim>\<open>null\<close>, \<^verbatim>\<open>null <= config.max\<close> is true, and the \<^verbatim>\<open>catch\<close> block
  is never entered. Every call of a run of any length is then allowed, at whatever times it
  is made, and the in-memory map is never touched.
\<close>

theorem checkRateLimit_not_ok_unbounded:
  assumes cfg: "redis_configured env" and down: "\<forall>t c r. fst (store t c r) = NotOk"
  shows "fst (checkRateLimit_seq env store ident p ns cs (m, r)) = replicate (length cs) True
       \<and> fst (snd (checkRateLimit_seq env store ident p ns cs (m, r))) = m"
proof (induction cs arbitrary: r)
  case Nil
  show ?case by simp
next
  case (Cons c cs)
  let ?step = "checkRateLimit env store ident p ns (fst c) (snd c) (m, r)"
  have a: "allowed (fst ?step)"
    by (rule checkRateLimit_not_ok_allows(1)[OF cfg down])
  have mem: "fst (snd ?step) = m"
    by (rule checkRateLimit_not_ok_allows(2)[OF cfg down])
  then have s1: "snd ?step = (m, snd (snd ?step))"
    by (metis prod.collapse)
  have "fst (checkRateLimit_seq env store ident p ns (c # cs) (m, r)) =
      allowed (fst ?step) # fst (checkRateLimit_seq env store ident p ns cs (snd ?step))"
    by (simp only: seq_Cons_fst)
  also have "\<dots> = True # fst (checkRateLimit_seq env store ident p ns cs (m, snd (snd ?step)))"
    using a s1 by simp
  also have "\<dots> = True # replicate (length cs) True"
    using Cons.IH[of "snd (snd ?step)"] by simp
  finally have flags: "fst (checkRateLimit_seq env store ident p ns (c # cs) (m, r)) =
      replicate (length (c # cs)) True" by simp
  have "fst (snd (checkRateLimit_seq env store ident p ns (c # cs) (m, r))) =
      fst (snd (checkRateLimit_seq env store ident p ns cs (snd ?step)))"
    by (simp only: seq_Cons_snd)
  also have "\<dots> = fst (snd (checkRateLimit_seq env store ident p ns cs (m, snd (snd ?step))))"
    using s1 by simp
  also have "\<dots> = m"
    using Cons.IH[of "snd (snd ?step)"] by simp
  finally show ?case using flags by simp
qed

theorem checkRateLimit_not_ok_unbounded_witness:
  "redis_configured env_configured
   \<and> fst ((not_ok_store :: unit upstash) 0 (INCR ''k'') ()) = NotOk
   \<and> fst (checkRateLimit_seq env_configured (not_ok_store :: unit upstash) ''10.0.0.1'' AUTH
            (Some ''login'')
            [(0, 1/2), (1, 1/2), (2, 1/2), (3, 1/2), (4, 1/2), (5, 1/2), (6, 1/2), (7, 1/2)]
            (Map.empty, ()))
        = [True, True, True, True, True, True, True, True]
   \<and> max_requests (RATE_LIMITS AUTH) = 5 \<and> fallbackMax (RATE_LIMITS AUTH) = 3
   \<and> fst (snd (checkRateLimit_seq env_configured (not_ok_store :: unit upstash) ''10.0.0.1'' AUTH
            (Some ''login'')
            [(0, 1/2), (1, 1/2), (2, 1/2), (3, 1/2), (4, 1/2), (5, 1/2), (6, 1/2), (7, 1/2)]
            (Map.empty, ()))) ''rate_limit:login:10.0.0.1'' = None"
proof -
  have cfg: "redis_configured env_configured"
    by (simp add: env_configured_def redis_configured_def)
  have down: "\<forall>t c r. fst ((not_ok_store :: unit upstash) t c r) = NotOk"
    by (simp add: not_ok_store_def)
  note T = checkRateLimit_not_ok_unbounded[OF cfg down, of "''10.0.0.1''" AUTH "Some ''login''"
      "[(0, 1/2), (1, 1/2), (2, 1/2), (3, 1/2), (4, 1/2), (5, 1/2), (6, 1/2), (7, 1/2)]"
      Map.empty "()"]
  have flags: "fst (checkRateLimit_seq env_configured (not_ok_store :: unit upstash) ''10.0.0.1'' AUTH
            (Some ''login'')
            [(0, 1/2), (1, 1/2), (2, 1/2), (3, 1/2), (4, 1/2), (5, 1/2), (6, 1/2), (7, 1/2)]
            (Map.empty, ()))
        = [True, True, True, True, True, True, True, True]"
    using T by (simp add: numeral_eq_Suc del: checkRateLimit_seq.simps)
  have mem: "fst (snd (checkRateLimit_seq env_configured (not_ok_store :: unit upstash) ''10.0.0.1'' AUTH
            (Some ''login'')
            [(0, 1/2), (1, 1/2), (2, 1/2), (3, 1/2), (4, 1/2), (5, 1/2), (6, 1/2), (7, 1/2)]
            (Map.empty, ()))) ''rate_limit:login:10.0.0.1'' = None"
    using T by (simp del: checkRateLimit_seq.simps)
  have one: "fst ((not_ok_store :: unit upstash) 0 (INCR ''k'') ()) = NotOk"
    by (simp add: not_ok_store_def)
  have nums: "max_requests (RATE_LIMITS AUTH) = 5" "fallbackMax (RATE_LIMITS AUTH) = 3" by simp_all
  from cfg one flags nums mem show ?thesis by blast
qed

section \<open>Properties of the field-level encryption\<close>

subsection \<open>UTF-8 written and read back\<close>

lemma unat_byte: "n < 256 \<Longrightarrow> unat (of_nat n :: 8 word) = n"
  by (simp add: unat_of_nat)

lemma decode1:
  assumes "unat b0 < 0x80"
  shows "utf8_decode (b0 # bs) = utf16_of_code_point (unat b0) @ utf8_decode bs"
  using assms by (simp add: utf16_of_code_point_def)

lemma decode2:
  assumes "unat b0 = 0xC0 + x" "2 \<le> x" "x \<le> 31" "unat b1 = 0x80 + y" "y < 64"
  shows "utf8_decode (b0 # b1 # bs) = utf16_of_code_point (x * 64 + y) @ utf8_decode bs"
  using assms by (simp add: is_continuation_def)

lemma decode3:
  assumes "unat b0 = 0xE0 + x" "x \<le> 15" "unat b1 = 0x80 + y" "y < 64" "unat b2 = 0x80 + z" "z < 64"
    and "x = 0 \<longrightarrow> 32 \<le> y" "x = 13 \<longrightarrow> y < 32"
  shows "utf8_decode (b0 # b1 # b2 # bs) = utf16_of_code_point (x * 4096 + y * 64 + z) @ utf8_decode bs"
  using assms by (auto simp add: is_continuation_def second_byte_ok_def)

lemma decode4:
  assumes "unat b0 = 0xF0 + w" "w \<le> 4" "unat b1 = 0x80 + x" "x < 64" "unat b2 = 0x80 + y" "y < 64"
    and "unat b3 = 0x80 + z" "z < 64"
    and "w = 0 \<longrightarrow> 16 \<le> x" "w = 4 \<longrightarrow> x < 16"
  shows "utf8_decode (b0 # b1 # b2 # b3 # bs) =
           utf16_of_code_point (w * 262144 + x * 4096 + y * 64 + z) @ utf8_decode bs"
  using assms by (auto simp add: is_continuation_def second_byte_ok_def)

lemma six_bit_digits:
  fixes cp :: nat
  obtains q1 r1 q2 r2 q3 r3 where
    "cp = q1 * 64 + r1" "r1 < 64" "q1 = q2 * 64 + r2" "r2 < 64" "q2 = q3 * 64 + r3" "r3 < 64"
    "cp mod 64 = r1" "cp div 64 = q1" "cp div 64 mod 64 = r2" "cp div 4096 = q2"
    "cp div 4096 mod 64 = r3" "cp div 262144 = q3"
proof -
  have a: "cp div 4096 = cp div 64 div 64"
  proof -
    have "cp div 4096 = cp div (64 * 64)" by simp
    also have "\<dots> = cp div 64 div 64" by (simp only: div_mult2_eq)
    finally show ?thesis .
  qed
  have b: "cp div 262144 = cp div 64 div 64 div 64"
  proof -
    have "cp div 262144 = cp div (64 * (64 * 64))" by simp
    also have "\<dots> = cp div 64 div 64 div 64" by (simp only: div_mult2_eq)
    finally show ?thesis .
  qed
  show thesis
  proof (rule that[of "cp div 64" "cp mod 64" "cp div 64 div 64" "cp div 64 mod 64"
        "cp div 64 div 64 div 64" "cp div 64 div 64 mod 64"])
    show "cp = cp div 64 * 64 + cp mod 64" by simp
    show "cp div 64 = cp div 64 div 64 * 64 + cp div 64 mod 64" by simp
    show "cp div 64 div 64 = cp div 64 div 64 div 64 * 64 + cp div 64 div 64 mod 64" by simp
    show "cp div 4096 = cp div 64 div 64" by (rule a)
    show "cp div 4096 mod 64 = cp div 64 div 64 mod 64" by (simp only: a)
    show "cp div 262144 = cp div 64 div 64 div 64" by (rule b)
  qed simp_all
qed


lemma decode_code_point:
  assumes "cp < 0x110000" "\<not> (0xD800 \<le> cp \<and> cp \<le> 0xDFFF)"
  shows "utf8_decode (utf8_of_code_point cp @ bs) = utf16_of_code_point cp @ utf8_decode bs"
proof -
  obtain q1 r1 q2 r2 q3 r3 where
    d: "cp = q1 * 64 + r1" "r1 < 64" "q1 = q2 * 64 + r2" "r2 < 64" "q2 = q3 * 64 + r3" "r3 < 64"
    and e: "cp mod 64 = r1" "cp div 64 = q1" "cp div 64 mod 64 = r2" "cp div 4096 = q2"
      "cp div 4096 mod 64 = r3" "cp div 262144 = q3"
    by (rule six_bit_digits)
  have e': "q1 mod 64 = r2" "q2 mod 64 = r3" using e by simp_all
  consider (a) "cp < 0x80" | (b) "0x80 \<le> cp" "cp < 0x800" | (c) "0x800 \<le> cp" "cp < 0x10000"
    | (d) "0x10000 \<le> cp"
    by linarith
  then show ?thesis
  proof cases
    case a
    then have u: "unat (of_nat cp :: 8 word) = cp" by (simp add: unat_byte)
    with a have "utf8_decode ((of_nat cp :: 8 word) # bs) = utf16_of_code_point cp @ utf8_decode bs"
      using decode1[of "of_nat cp" bs] by simp
    with a show ?thesis by (simp add: utf8_of_code_point_def)
  next
    case b
    from b d have x: "2 \<le> q1" "q1 \<le> 31" by linarith+
    have u0: "unat (of_nat (0xC0 + q1) :: 8 word) = 0xC0 + q1" using x by (intro unat_byte) linarith
    have u1: "unat (of_nat (0x80 + r1) :: 8 word) = 0x80 + r1" using d(2) by (intro unat_byte) linarith
    have enc: "utf8_of_code_point cp = [of_nat (0xC0 + q1), of_nat (0x80 + r1)]"
      using b by (simp add: utf8_of_code_point_def e e')
    from decode2[OF u0 x u1 d(2), of bs] show ?thesis
      by (simp only: enc d(1)[symmetric] append_Cons append_Nil)
  next
    case c
    from c d have x: "q2 \<le> 15" by linarith
    have u0: "unat (of_nat (0xE0 + q2) :: 8 word) = 0xE0 + q2" using x by (intro unat_byte) linarith
    have u1: "unat (of_nat (0x80 + r2) :: 8 word) = 0x80 + r2" using d(4) by (intro unat_byte) linarith
    have u2: "unat (of_nat (0x80 + r1) :: 8 word) = 0x80 + r1" using d(2) by (intro unat_byte) linarith
    have r0: "q2 = 0 \<longrightarrow> 32 \<le> r2" using c d by linarith
    have r1: "q2 = 13 \<longrightarrow> r2 < 32" using c d assms(2) by linarith
    have cp: "q2 * 4096 + r2 * 64 + r1 = cp" using d by linarith
    have enc: "utf8_of_code_point cp = [of_nat (0xE0 + q2), of_nat (0x80 + r2), of_nat (0x80 + r1)]"
      using c by (simp add: utf8_of_code_point_def e e')
    from decode3[OF u0 x u1 d(4) u2 d(2) r0 r1, of bs] show ?thesis
      by (simp only: enc cp append_Cons append_Nil)
  next
    case d4: d
    from d4 d assms(1) have w: "q3 \<le> 4" by linarith
    have u0: "unat (of_nat (0xF0 + q3) :: 8 word) = 0xF0 + q3" using w by (intro unat_byte) linarith
    have u1: "unat (of_nat (0x80 + r3) :: 8 word) = 0x80 + r3" using d(6) by (intro unat_byte) linarith
    have u2: "unat (of_nat (0x80 + r2) :: 8 word) = 0x80 + r2" using d(4) by (intro unat_byte) linarith
    have u3: "unat (of_nat (0x80 + r1) :: 8 word) = 0x80 + r1" using d(2) by (intro unat_byte) linarith
    have r0: "q3 = 0 \<longrightarrow> 16 \<le> r3" using d4 d by linarith
    have r1: "q3 = 4 \<longrightarrow> r3 < 16" using d4 d assms(1) by linarith
    have cp: "q3 * 262144 + r3 * 4096 + r2 * 64 + r1 = cp" using d by linarith
    have enc: "utf8_of_code_point cp =
        [of_nat (0xF0 + q3), of_nat (0x80 + r3), of_nat (0x80 + r2), of_nat (0x80 + r1)]"
      using d4 by (simp add: utf8_of_code_point_def e e')
    from decode4[OF u0 w u1 d(6) u2 d(4) u3 d(2) r0 r1, of bs] show ?thesis
      by (simp only: enc cp append_Cons append_Nil)
  qed
qed

lemma utf16_of_code_unit: "utf16_of_code_point (unat (u :: 16 word)) = [u]"
proof -
  have "unat u < 2 ^ 16" using unsigned_less[of u, where 'a = nat] by simp
  then show ?thesis by (simp add: utf16_of_code_point_def)
qed

lemma surrogate_pair_range:
  assumes "is_high_surrogate u" "is_low_surrogate v"
  shows "0x10000 \<le> surrogate_pair_code_point u v" "surrogate_pair_code_point u v < 0x110000"
  using assms unfolding is_high_surrogate_def is_low_surrogate_def surrogate_pair_code_point_def
  by linarith+

lemma utf16_of_surrogate_pair:
  assumes "is_high_surrogate u" "is_low_surrogate v"
  shows "utf16_of_code_point (surrogate_pair_code_point u v) = [u, v]"
proof -
  let ?h = "unat u - 0xD800" and ?l = "unat v - 0xDC00"
  from assms have h: "unat u = 0xD800 + ?h" and l: "unat v = 0xDC00 + ?l" "?l < 0x400"
    unfolding is_high_surrogate_def is_low_surrogate_def by linarith+
  have cp: "surrogate_pair_code_point u v - 0x10000 = ?h * 0x400 + ?l"
    by (simp add: surrogate_pair_code_point_def)
  have dv: "(?h * 0x400 + ?l) div 0x400 = ?h" using l(2) by simp
  have md: "(?h * 0x400 + ?l) mod 0x400 = ?l" using l(2) by simp
  have "utf16_of_code_point (surrogate_pair_code_point u v) =
      [of_nat (0xD800 + ?h), of_nat (0xDC00 + ?l)]"
    using surrogate_pair_range(1)[OF assms]
    by (simp only: utf16_of_code_point_def cp dv md) simp
  also have "\<dots> = [of_nat (unat u), of_nat (unat v)]"
    using h l(1) by simp
  finally show ?thesis by simp
qed

lemma utf8_round_trip:
  "well_formed_utf16 s \<Longrightarrow> utf8_decode (utf8_encode s) = s"
proof (induction s rule: utf8_encode.induct)
  case 1
  then show ?case by simp
next
  case (2 u)
  then have ns: "\<not> (0xD800 \<le> unat u \<and> unat u \<le> 0xDFFF)" by (simp add: is_surrogate_def)
  have lt: "unat u < 0x110000" using unsigned_less[of u, where 'a = nat] by simp
  from decode_code_point[OF lt ns, of "[]"] 2 show ?case
    by (simp add: utf16_of_code_unit)
next
  case (3 u v rest)
  show ?case
  proof (cases "is_high_surrogate u \<and> is_low_surrogate v")
    case True
    then have hi: "is_high_surrogate u" and lo: "is_low_surrogate v" by simp_all
    from "3.prems" True have wf: "well_formed_utf16 rest" by simp
    have lt: "surrogate_pair_code_point u v < 0x110000" by (rule surrogate_pair_range(2)[OF hi lo])
    have ns: "\<not> (0xD800 \<le> surrogate_pair_code_point u v \<and> surrogate_pair_code_point u v \<le> 0xDFFF)"
      using surrogate_pair_range(1)[OF hi lo] by simp
    from decode_code_point[OF lt ns, of "utf8_encode rest"] "3.IH"(1)[OF True wf] True
    show ?thesis by (simp add: utf16_of_surrogate_pair[OF hi lo])
  next
    case False
    with "3.prems" have nsu: "\<not> is_surrogate u" and wf: "well_formed_utf16 (v # rest)" by simp_all
    then have ns: "\<not> (0xD800 \<le> unat u \<and> unat u \<le> 0xDFFF)" by (simp add: is_surrogate_def)
    have lt: "unat u < 0x110000" using unsigned_less[of u, where 'a = nat] by simp
    have "utf8_encode (u # v # rest) = utf8_of_code_point (unat u) @ utf8_encode (v # rest)"
      using False nsu by auto
    with decode_code_point[OF lt ns, of "utf8_encode (v # rest)"] "3.IH"(3)[OF False nsu wf]
    show ?thesis by (simp add: utf16_of_code_unit del: utf8_encode.simps)
  qed
qed


subsection \<open>Framing of the blob\<close>

lemma subarray_pieces:
  assumes "length salt = SALT_LENGTH" "length iv = IV_LENGTH" "length tag = AUTH_TAG_LENGTH"
  shows "subarray (salt @ iv @ tag @ ct) 0 SALT_LENGTH = salt"
    and "subarray (salt @ iv @ tag @ ct) SALT_LENGTH (SALT_LENGTH + IV_LENGTH) = iv"
    and "subarray (salt @ iv @ tag @ ct) (SALT_LENGTH + IV_LENGTH) (SALT_LENGTH + IV_LENGTH + AUTH_TAG_LENGTH) = tag"
    and "drop (SALT_LENGTH + IV_LENGTH + AUTH_TAG_LENGTH) (salt @ iv @ tag @ ct) = ct"
  using assms by (simp_all add: subarray_def)

lemma decrypt_encrypt:
  assumes laws: "crypto_laws P"
    and key: "getEncryptionKey k P = Inr key"
    and iv: "length iv = IV_LENGTH" and salt: "length salt = SALT_LENGTH"
    and v: "v \<noteq> []"
  shows "\<exists>blob. encrypt k P iv salt v = Inr blob \<and> decrypt k P blob = Inr (utf8_decode (utf8_encode v))"
proof -
  let ?dk = "hkdf P key salt"
  let ?ct = "fst (gcm_seal P ?dk iv (utf8_encode v))"
  let ?tag = "snd (gcm_seal P ?dk iv (utf8_encode v))"
  let ?combined = "salt @ iv @ ?tag @ ?ct"
  let ?blob = "base64_encode P ?combined"
  from laws have rt: "base64_decode P ?blob = ?combined"
    and empty: "base64_decode P [] = []"
    and opened: "gcm_open P ?dk iv ?tag ?ct = Some (utf8_encode v)"
    and tag: "length ?tag = AUTH_TAG_LENGTH"
    by (simp_all add: crypto_laws_def)
  have enc: "encrypt k P iv salt v = Inr ?blob"
    using v key by (simp add: encrypt_def Let_def split: prod.splits)
  have "?combined \<noteq> []" using salt by (auto simp add: SALT_LENGTH_def)
  with rt empty have nonempty: "?blob \<noteq> []" by metis
  have dec: "decrypt k P ?blob = Inr (utf8_decode (utf8_encode v))"
    unfolding decrypt_def Let_def rt subarray_pieces[OF salt iv tag] opened
    using nonempty key by (simp add: opened)
  from enc dec show ?thesis by blast
qed


text \<open>
  C5. \<^verbatim>\<open>safeDecrypt\<close> never raises: it always returns a string. On every input that
  \<^verbatim>\<open>isEncrypted\<close> does not accept (empty, or fewer than salt + nonce + tag + 1 bytes after
  base64 decoding) it returns the input; on every input that \<^verbatim>\<open>isEncrypted\<close> accepts and
  \<^verbatim>\<open>decrypt\<close> fails on, whatever the error, it returns the input as well. This holds for
  every behaviour of the platform's primitives and every key configuration.
\<close>

theorem safeDecrypt_never_raises:
  "(\<exists>s. safeDecrypt k P v = Inr s)
   \<and> (\<not> isEncrypted P v \<longrightarrow> safeDecrypt k P v = Inr v)
   \<and> (isEncrypted P v \<longrightarrow> (\<forall>e. decrypt k P v = Inl e \<longrightarrow> safeDecrypt k P v = Inr v))"
  by (simp add: safeDecrypt_def isEncrypted_def split: sum.splits)

lemma example_decode_replicate: "base64_decode example_crypto (replicate n c) = replicate n (ucast c)"
  by (simp add: example_crypto_def)

theorem safeDecrypt_never_raises_witness:
  "\<not> isEncrypted example_crypto [0x68, 0x69]
   \<and> safeDecrypt example_key example_crypto [0x68, 0x69] = Inr [0x68, 0x69]
   \<and> isEncrypted example_crypto (replicate 50 0x41)
   \<and> decrypt example_key example_crypto (replicate 50 0x41) = Inl DecipherError
   \<and> safeDecrypt example_key example_crypto (replicate 50 0x41) = Inr (replicate 50 0x41)"
proof -
  have a: "\<not> isEncrypted example_crypto [0x68, 0x69]"
    by (simp add: isEncrypted_def example_crypto_def SALT_LENGTH_def IV_LENGTH_def AUTH_TAG_LENGTH_def)
  have b: "isEncrypted example_crypto (replicate 50 0x41)"
    by (simp add: isEncrypted_def example_decode_replicate SALT_LENGTH_def IV_LENGTH_def AUTH_TAG_LENGTH_def)
  have k: "getEncryptionKey example_key example_crypto = Inr (replicate 32 0x41)"
    by (simp add: getEncryptionKey_def example_key_def example_decode_replicate)
  have c: "decrypt example_key example_crypto (replicate 50 0x41) = Inl DecipherError"
    by (simp add: decrypt_def k example_decode_replicate subarray_def SALT_LENGTH_def IV_LENGTH_def AUTH_TAG_LENGTH_def Let_def)
       (simp add: example_crypto_def)
  from a b c safeDecrypt_never_raises[of example_key example_crypto "[0x68, 0x69]"]
    safeDecrypt_never_raises[of example_key example_crypto "replicate 50 0x41"]
  show ?thesis by blast
qed

text \<open>
  C6, as stated, fails on the empty string: with no key in the environment \<^verbatim>\<open>encrypt('')\<close>,
  \<^verbatim>\<open>decrypt('')\<close> and \<^verbatim>\<open>secureHash('')\<close> return \<^verbatim>\<open>''\<close> before the key is read.
\<close>

theorem encrypt_empty_without_key:
  "getEncryptionKey None example_crypto = Inl KeyRequired
   \<and> encrypt None example_crypto (replicate 12 1) (replicate 16 2) [] = Inr []
   \<and> decrypt None example_crypto [] = Inr []
   \<and> secureHash None example_crypto [] = Inr []"
  by (simp add: getEncryptionKey_def encrypt_def decrypt_def secureHash_def)

text \<open>
  C6, amended. If the vault key is absent, empty, or does not decode to exactly 32 bytes,
  then \<^verbatim>\<open>encrypt\<close>, \<^verbatim>\<open>decrypt\<close> and \<^verbatim>\<open>secureHash\<close> fail with the key error on every
  non-empty input (\<^verbatim>\<open>KeyRequired\<close> for an absent or empty key, \<^verbatim>\<open>KeyLength\<close> otherwise):
  none of them returns a value, so none falls back to plaintext.
\<close>

theorem vault_key_required:
  assumes "\<forall>s. k = Some s \<longrightarrow> s = [] \<or> length (base64_decode P s) \<noteq> 32"
    and "v \<noteq> []"
  shows "encrypt k P iv salt v = Inl (if truthy k then KeyLength else KeyRequired)
       \<and> decrypt k P v = Inl (if truthy k then KeyLength else KeyRequired)
       \<and> secureHash k P v = Inl (if truthy k then KeyLength else KeyRequired)"
proof -
  have "getEncryptionKey k P = Inl (if truthy k then KeyLength else KeyRequired)"
    using assms(1) by (cases k) (auto simp add: getEncryptionKey_def Let_def)
  with assms(2) show ?thesis
    by (simp add: encrypt_def decrypt_def secureHash_def)
qed

theorem vault_key_required_witness:
  "encrypt None example_crypto (replicate 12 1) (replicate 16 2) [0x68, 0x69] = Inl KeyRequired
   \<and> decrypt (Some [0x41, 0x42]) example_crypto [0x68, 0x69] = Inl KeyLength
   \<and> secureHash (Some []) example_crypto [0x68, 0x69] = Inl KeyRequired"
proof -
  have a: "\<forall>s. (None :: js_string option) = Some s \<longrightarrow> s = [] \<or> length (base64_decode example_crypto s) \<noteq> 32"
    by simp
  have b: "\<forall>s. Some [0x41, 0x42] = Some s \<longrightarrow> s = [] \<or> length (base64_decode example_crypto s) \<noteq> 32"
    by (simp add: example_crypto_def)
  have c: "\<forall>s. Some ([] :: js_string) = Some s \<longrightarrow> s = [] \<or> length (base64_decode example_crypto s) \<noteq> 32"
    by simp
  have v: "[0x68, 0x69] \<noteq> ([] :: js_string)" by simp
  from vault_key_required[OF a v, of "replicate 12 1" "replicate 16 2"]
    vault_key_required[OF b v] vault_key_required[OF c v]
  show ?thesis by simp
qed


lemma example_crypto_laws: "crypto_laws example_crypto"
proof -
  have up: "is_up (ucast :: 8 word \<Rightarrow> 16 word)" by (simp add: is_up)
  have id: "\<And>b :: 8 word. ucast (ucast b :: 16 word) = b"
    by (rule ucast_up_ucast_id[OF up])
  have rt: "\<And>bs :: 8 word list. map (\<lambda>x. ucast (ucast x :: 16 word)) bs = bs"
    by (simp add: id)
  show ?thesis
    by (simp add: crypto_laws_def example_crypto_def rt AUTH_TAG_LENGTH_def comp_def)
qed

lemma example_key_ok: "getEncryptionKey example_key example_crypto = Inr (replicate 32 0x41)"
  by (simp add: getEncryptionKey_def example_key_def example_decode_replicate)

text \<open>
  C4, amended. With a key that decodes to 32 bytes, a nonce of \<^verbatim>\<open>IV_LENGTH\<close> and a salt of
  \<^verbatim>\<open>SALT_LENGTH\<close> bytes, and primitives that satisfy \<open>crypto_laws\<close>: for every string \<open>v\<close>
  in which no surrogate code unit stands unpaired, \<^verbatim>\<open>encrypt(v)\<close> returns a blob and
  \<^verbatim>\<open>decrypt\<close> of that blob returns \<open>v\<close>.
\<close>

theorem decrypt_encrypt_round_trip:
  assumes laws: "crypto_laws P"
    and key: "getEncryptionKey k P = Inr key"
    and iv: "length iv = IV_LENGTH" and salt: "length salt = SALT_LENGTH"
    and wf: "well_formed_utf16 v"
  shows "\<exists>blob. encrypt k P iv salt v = Inr blob \<and> decrypt k P blob = Inr v"
proof (cases "v = []")
  case True
  then show ?thesis by (simp add: encrypt_def decrypt_def)
next
  case False
  from decrypt_encrypt[OF laws key iv salt False] utf8_round_trip[OF wf]
  show ?thesis by simp
qed

theorem decrypt_encrypt_round_trip_witness:
  "crypto_laws example_crypto
   \<and> getEncryptionKey example_key example_crypto = Inr (replicate 32 0x41)
   \<and> length (replicate 12 (1 :: byte)) = IV_LENGTH \<and> length (replicate 16 (2 :: byte)) = SALT_LENGTH
   \<and> well_formed_utf16 [0x48, 0x69, 0xD83D, 0xDE00]
   \<and> (case encrypt example_key example_crypto (replicate 12 1) (replicate 16 2)
              [0x48, 0x69, 0xD83D, 0xDE00] of
         Inl e \<Rightarrow> False
       | Inr blob \<Rightarrow> decrypt example_key example_crypto blob = Inr [0x48, 0x69, 0xD83D, 0xDE00])"
proof -
  have iv: "length (replicate 12 (1 :: byte)) = IV_LENGTH" by (simp add: IV_LENGTH_def)
  have salt: "length (replicate 16 (2 :: byte)) = SALT_LENGTH" by (simp add: SALT_LENGTH_def)
  have wf: "well_formed_utf16 [0x48, 0x69, 0xD83D, 0xDE00]"
    by (simp add: is_surrogate_def is_high_surrogate_def is_low_surrogate_def)
  from decrypt_encrypt_round_trip[OF example_crypto_laws example_key_ok iv salt wf]
  obtain blob where
    "encrypt example_key example_crypto (replicate 12 1) (replicate 16 2) [0x48, 0x69, 0xD83D, 0xDE00]
       = Inr blob"
    "decrypt example_key example_crypto blob = Inr [0x48, 0x69, 0xD83D, 0xDE00]"
    by blast
  with example_crypto_laws example_key_ok iv salt wf show ?thesis by simp
qed

text \<open>
  C4, as stated, fails on a string with an unpaired surrogate: it is written as U+FFFD,
  and U+FFFD is what comes back, whatever primitives satisfy \<open>crypto_laws\<close>.
\<close>

lemma lone_surrogate_replaced:
  assumes laws: "crypto_laws P"
    and key: "getEncryptionKey k P = Inr key"
    and iv: "length iv = IV_LENGTH" and salt: "length salt = SALT_LENGTH"
  shows "\<exists>blob. encrypt k P iv salt [0xD800] = Inr blob \<and> decrypt k P blob = Inr [0xFFFD]"
proof -
  have "utf8_decode (utf8_encode [0xD800]) = [0xFFFD]"
    by (simp add: is_surrogate_def is_continuation_def second_byte_ok_def utf16_of_code_point_def)
  with decrypt_encrypt[OF laws key iv salt, of "[0xD800]"] show ?thesis by simp
qed

text \<open>The same at the example primitives, for the string of the one code unit \<^verbatim>\<open>D800\<close>.\<close>

theorem lone_surrogate_not_round_tripped:
  "(case encrypt example_key example_crypto (replicate 12 1) (replicate 16 2) [0xD800] of
      Inl e \<Rightarrow> False
    | Inr blob \<Rightarrow> decrypt example_key example_crypto blob = Inr [0xFFFD]
                 \<and> decrypt example_key example_crypto blob \<noteq> Inr [0xD800])"
proof -
  have iv: "length (replicate 12 (1 :: byte)) = IV_LENGTH" by (simp add: IV_LENGTH_def)
  have salt: "length (replicate 16 (2 :: byte)) = SALT_LENGTH" by (simp add: SALT_LENGTH_def)
  from lone_surrogate_replaced[OF example_crypto_laws example_key_ok iv salt]
  obtain blob where
    "encrypt example_key example_crypto (replicate 12 1) (replicate 16 2) [0xD800] = Inr blob"
    "decrypt example_key example_crypto blob = Inr [0xFFFD]"
    by blast
  then show ?thesis by simp
qed

section \<open>Properties of the notifier\<close>

text \<open>
  When the credentials are absent, or the currency is empty or a well-formed code, the
  function returns: a send that throws, a non-OK answer and a body that cannot be read all
  end in a log entry.
\<close>

lemma build_message_ok:
  assumes "well_formed_currency_code (or_else (n_currency d) ''CAD'')"
  shows "\<exists>r. build_message fmt d fa = Inr r"
  using assms
  by (cases "n_type d") (simp_all add: build_message_def format_currency_def split: option.splits)

lemma sendPaymentNotification_returns:
  assumes "\<not> truthy (PUSHOVER_API_TOKEN env) \<or> \<not> truthy (PUSHOVER_USER_KEY env)
           \<or> well_formed_currency_code (or_else (n_currency d) ''CAD'')"
  shows "\<exists>out. sendPaymentNotification env fmt fetch d = Inr out"
proof (cases "\<not> truthy (PUSHOVER_API_TOKEN env) \<or> \<not> truthy (PUSHOVER_USER_KEY env)")
  case True
  then show ?thesis by (simp add: sendPaymentNotification_def)
next
  case False
  with assms have wf: "well_formed_currency_code (or_else (n_currency d) ''CAD'')" by blast
  from build_message_ok[OF wf] obtain t m u ut where
    bm: "build_message fmt d (fmt (or_else (n_currency d) ''CAD'') (n_amount d)) = Inr (t, m, u, ut)"
    by (metis prod_cases4)
  from False wf bm show ?thesis
    by (cases "fetch \<lparr>p_token = the (PUSHOVER_API_TOKEN env),
                         p_user = the (PUSHOVER_USER_KEY env),
                         p_message = m, p_title = t, p_url = u, p_url_title = ut,
                         p_priority = (case n_priority d of Some p \<Rightarrow> p
                                       | None \<Rightarrow> if n_type d = Dispute then 1 else 0),
                         p_sound = (if n_type d = Dispute then ''siren'' else ''cashregister'')\<rparr>")
       (simp_all add: sendPaymentNotification_def format_currency_def Let_def)
qed


text \<open>
  C9 asks that \<^verbatim>\<open>sendPaymentNotification\<close> return normally for every input. With both
  credentials configured and the currency \<^verbatim>\<open>'XX'\<close>, the constructor of the number formatter
  throws before the \<^verbatim>\<open>try\<close> block is entered, and the \<^verbatim>\<open>RangeError\<close> reaches the caller,
  whatever the formatter prints and whatever \<^verbatim>\<open>fetch\<close> would do.
\<close>

theorem sendPaymentNotification_throws_on_bad_currency:
  "sendPaymentNotification pushover_configured fmt fetch (example_payment ''XX'') = Inl RangeError"
  by (simp add: sendPaymentNotification_def pushover_configured_def example_payment_def
      format_currency_def well_formed_currency_code_def or_else_def)


theorem sendPaymentNotification_throws_on_bad_currency_witness:
  "sendPaymentNotification pushover_configured (\<lambda>c x. c) (\<lambda>r. PushOk) (example_payment ''XX'')
     = Inl RangeError"
  using sendPaymentNotification_throws_on_bad_currency[of "\<lambda>c x. c" "\<lambda>r. PushOk"] .

section \<open>Properties of the Stripe webhook\<close>

text \<open>
  The statements below are about a request that reaches the step they describe: the
  route's limiter admits it and \<^verbatim>\<open>STRIPE_WEBHOOK_SECRET\<close> is configured (otherwise the
  answer is 429 or 500 before the signature is looked at). The limiter's counters are the
  only state such a request changes before the event is dispatched.
\<close>

lemma POST_verified:
  assumes adm: "fst (checkRateLimit_route (client_ip req) now (w_limiter w))"
    and secret: "truthy (STRIPE_WEBHOOK_SECRET env)"
    and sg: "truthy (stripe_signature req)"
    and body: "raw_body req = Some rawBody"
    and verify: "verifyStripeWebhook deps rawBody (the (stripe_signature req))
                   (the (STRIPE_WEBHOOK_SECRET env)) = Inr ev"
  shows "POST env deps now req w =
     (if isEventProcessed (ev_id ev) (w_db w)
      then (json 200 [(''received'', JBool True), (''status'', JStr ''already_processed'')],
            admitted_world req now w)
      else (case dispatch env deps now ev (admitted_world req now w) of
              (Inl _, w2) \<Rightarrow> (json 500 [(''error'', JStr ''Internal error'')], w2)
            | (Inr r, w2) \<Rightarrow> (r, w2)))"
proof -
  obtain a lim where rl: "checkRateLimit_route (client_ip req) now (w_limiter w) = (a, lim)"
    by (cases "checkRateLimit_route (client_ip req) now (w_limiter w)")
  with adm have a: "a" by simp
  show ?thesis
    using a secret sg body verify
    by (simp add: POST_def admitted_world_def rl Let_def)
qed

text \<open>
  C1. A verified event whose id is already recorded (\<^verbatim>\<open>isEventProcessed\<close> returns true) is
  answered with 200 and \<^verbatim>\<open>status: 'already_processed'\<close>, and nothing is reconciled a second
  time: no handler runs (the result does not depend on the event's content or on the
  processing functions), the tables are as before, so no \<^verbatim>\<open>payment_events\<close> row is added
  and no project or invoice changes, and no notification is sent.
\<close>

theorem duplicate_event_not_reprocessed:
  assumes adm: "fst (checkRateLimit_route (client_ip req) now (w_limiter w))"
    and secret: "truthy (STRIPE_WEBHOOK_SECRET env)"
    and sg: "truthy (stripe_signature req)"
    and body: "raw_body req = Some rawBody"
    and verify: "verifyStripeWebhook deps rawBody (the (stripe_signature req))
                   (the (STRIPE_WEBHOOK_SECRET env)) = Inr ev"
    and dup: "isEventProcessed (ev_id ev) (w_db w)"
  shows "POST env deps now req w =
           (json 200 [(''received'', JBool True), (''status'', JStr ''already_processed'')],
            admitted_world req now w)
       \<and> w_db (snd (POST env deps now req w)) = w_db w
       \<and> w_pushes (snd (POST env deps now req w)) = w_pushes w"
  using POST_verified[OF adm secret sg body verify] dup
  by (simp add: admitted_world_def)


text \<open>Facts about the example deployment.\<close>

lemma example_admitted:
  "fst (checkRateLimit_route (client_ip (example_request sg body)) 0 (w_limiter empty_world))"
  "fst (checkRateLimit_route (client_ip (example_request sg body)) 0 (w_limiter recorded_world))"
  by (simp_all add: checkRateLimit_route_def cleanupRateLimitMap_def empty_world_def recorded_world_def
      RATE_LIMIT_CLEANUP_INTERVAL_def RATE_LIMIT_MAX_ENTRIES_def Let_def)

lemma example_secret: "truthy (STRIPE_WEBHOOK_SECRET example_env)"
  by (simp add: example_env_def)

lemma example_verify_good:
  "verifyStripeWebhook example_deps body (the (stripe_signature (example_request (Some ''good'') body)))
     (the (STRIPE_WEBHOOK_SECRET example_env)) = Inr (example_event body)"
  by (simp add: example_deps_def example_request_def)

theorem duplicate_event_not_reprocessed_witness:
  "isEventProcessed (ev_id (example_event ''no-correlation'')) (w_db recorded_world)
   \<and> res_status (fst (POST example_env example_deps 0
         (example_request (Some ''good'') ''no-correlation'') recorded_world)) = 200
   \<and> res_body (fst (POST example_env example_deps 0
         (example_request (Some ''good'') ''no-correlation'') recorded_world))
       = [(''received'', JBool True), (''status'', JStr ''already_processed'')]
   \<and> w_db (snd (POST example_env example_deps 0
         (example_request (Some ''good'') ''no-correlation'') recorded_world)) = w_db recorded_world
   \<and> w_pushes (snd (POST example_env example_deps 0
         (example_request (Some ''good'') ''no-correlation'') recorded_world)) = []"
proof -
  have sg: "truthy (stripe_signature (example_request (Some ''good'') ''no-correlation''))"
    by (simp add: example_request_def)
  have body: "raw_body (example_request (Some ''good'') ''no-correlation'') = Some ''no-correlation''"
    by (simp add: example_request_def)
  have dup: "isEventProcessed (ev_id (example_event ''no-correlation'')) (w_db recorded_world)"
    by (simp add: isEventProcessed_def example_event_def recorded_world_def empty_world_def)
  have p: "w_pushes recorded_world = []" by (simp add: recorded_world_def empty_world_def)
  from duplicate_event_not_reprocessed[OF example_admitted(2) example_secret sg body
      example_verify_good dup] dup p
  show ?thesis by (simp add: json_def admitted_world_def)
qed

text \<open>The two ways a request fails the signature step.\<close>

lemma POST_signature_failure:
  assumes adm: "fst (checkRateLimit_route (client_ip req) now (w_limiter w))"
    and secret: "truthy (STRIPE_WEBHOOK_SECRET env)"
  shows "(\<not> truthy (stripe_signature req) \<longrightarrow>
            POST env deps now req w =
              (json 400 [(''error'', JStr ''Missing signature'')], admitted_world req now w))
       \<and> (truthy (stripe_signature req) \<and> raw_body req = Some rawBody
            \<and> verifyStripeWebhook deps rawBody (the (stripe_signature req))
                  (the (STRIPE_WEBHOOK_SECRET env)) = Inl msg \<longrightarrow>
            POST env deps now req w =
              (json 401 [(''error'', JStr ''Invalid signature'')], admitted_world req now w))
       \<and> w_db (admitted_world req now w) = w_db w
       \<and> w_pushes (admitted_world req now w) = w_pushes w"
proof -
  obtain a lim where rl: "checkRateLimit_route (client_ip req) now (w_limiter w) = (a, lim)"
    by (cases "checkRateLimit_route (client_ip req) now (w_limiter w)")
  with adm have a: "a" by simp
  show ?thesis
    using a secret
    by (simp add: POST_def admitted_world_def rl Let_def)
qed

text \<open>
  C2, amended. When \<^verbatim>\<open>verifyStripeWebhook\<close> throws on the signature header that was sent
  (mismatched or malformed), the answer is 401 \<^verbatim>\<open>Invalid signature\<close>; when the header is
  missing or empty, the answer is 400 \<^verbatim>\<open>Missing signature\<close>. In both cases nothing is
  processed: the tables are unchanged and no notification is sent.
\<close>

theorem signature_failure_rejected:
  assumes adm: "fst (checkRateLimit_route (client_ip req) now (w_limiter w))"
    and secret: "truthy (STRIPE_WEBHOOK_SECRET env)"
  shows "(\<not> truthy (stripe_signature req) \<longrightarrow>
            POST env deps now req w =
              (json 400 [(''error'', JStr ''Missing signature'')], admitted_world req now w))
       \<and> (truthy (stripe_signature req) \<and> raw_body req = Some rawBody
            \<and> verifyStripeWebhook deps rawBody (the (stripe_signature req))
                  (the (STRIPE_WEBHOOK_SECRET env)) = Inl msg \<longrightarrow>
            POST env deps now req w =
              (json 401 [(''error'', JStr ''Invalid signature'')], admitted_world req now w))
       \<and> w_db (admitted_world req now w) = w_db w
       \<and> w_pushes (admitted_world req now w) = w_pushes w"
  by (rule POST_signature_failure[OF adm secret])

text \<open>
  C2, as stated, fails for a missing signature header: the answer is 400, not 401.
\<close>

theorem missing_signature_answers_400:
  "res_status (fst (POST example_env example_deps 0 (example_request None ''no-correlation'')
      empty_world)) = 400
   \<and> res_body (fst (POST example_env example_deps 0 (example_request None ''no-correlation'')
      empty_world)) = [(''error'', JStr ''Missing signature'')]
   \<and> res_status (fst (POST example_env example_deps 0 (example_request None ''no-correlation'')
      empty_world)) \<noteq> 401"
proof -
  have "\<not> truthy (stripe_signature (example_request None ''no-correlation''))"
    by (simp add: example_request_def)
  with POST_signature_failure[OF example_admitted(1) example_secret,
      of None "''no-correlation''" example_deps]
  show ?thesis by (simp add: json_def)
qed


theorem signature_failure_rejected_witness:
  "truthy (stripe_signature (example_request (Some ''forged'') ''no-correlation''))
   \<and> verifyStripeWebhook example_deps ''no-correlation'' ''forged'' ''whsec'' = Inl ''signature mismatch''
   \<and> res_status (fst (POST example_env example_deps 0
         (example_request (Some ''forged'') ''no-correlation'') empty_world)) = 401
   \<and> w_db (snd (POST example_env example_deps 0
         (example_request (Some ''forged'') ''no-correlation'') empty_world)) = w_db empty_world
   \<and> w_pushes (snd (POST example_env example_deps 0
         (example_request (Some ''forged'') ''no-correlation'') empty_world)) = w_pushes empty_world"
proof -
  have sg: "truthy (stripe_signature (example_request (Some ''forged'') ''no-correlation''))"
    by (simp add: example_request_def)
  have body: "raw_body (example_request (Some ''forged'') ''no-correlation'') = Some ''no-correlation''"
    by (simp add: example_request_def)
  have v: "verifyStripeWebhook example_deps ''no-correlation''
      (the (stripe_signature (example_request (Some ''forged'') ''no-correlation'')))
      (the (STRIPE_WEBHOOK_SECRET example_env)) = Inl ''signature mismatch''"
    by (simp add: example_deps_def example_request_def)
  have v': "verifyStripeWebhook example_deps ''no-correlation'' ''forged'' ''whsec'' = Inl ''signature mismatch''"
    by (simp add: example_deps_def)
  from signature_failure_rejected[OF example_admitted(1) example_secret,
      of "Some ''forged''" "''no-correlation''" example_deps "''no-correlation''" "''signature mismatch''"]
    sg body v v'
  show ?thesis by (simp add: json_def)
qed

text \<open>The environment guard at the head of \<^verbatim>\<open>handleCheckoutSessionCompleted\<close>.\<close>

lemma dispatch_wrong_environment:
  assumes "ev_object ev = CheckoutSessionCompleted s"
    and "metadata_get s (ENVIRONMENT deps) = Some tag" "tag \<noteq> []" "tag \<noteq> currentEnv env"
  shows "dispatch env deps now ev w =
      (Inr (json 200 [(''received'', JBool True), (''status'', JStr ''wrong_environment'')]), w)"
  using assms by (simp add: dispatch_def handleCheckoutSessionCompleted_def Let_def)

text \<open>
  C10. A validly signed, not yet recorded \<^verbatim>\<open>checkout.session.completed\<close> event whose
  metadata carries an environment tag (a non-empty string) different from the current
  environment is answered with 200 and \<^verbatim>\<open>status: 'wrong_environment'\<close>, and nothing
  changes: no \<^verbatim>\<open>payment_events\<close> row, no project or invoice update, no notification.
\<close>

theorem wrong_environment_skipped:
  assumes adm: "fst (checkRateLimit_route (client_ip req) now (w_limiter w))"
    and secret: "truthy (STRIPE_WEBHOOK_SECRET env)"
    and sg: "truthy (stripe_signature req)"
    and body: "raw_body req = Some rawBody"
    and verify: "verifyStripeWebhook deps rawBody (the (stripe_signature req))
                   (the (STRIPE_WEBHOOK_SECRET env)) = Inr ev"
    and new: "\<not> isEventProcessed (ev_id ev) (w_db w)"
    and completed: "ev_object ev = CheckoutSessionCompleted s"
    and tag: "metadata_get s (ENVIRONMENT deps) = Some tag" "tag \<noteq> []" "tag \<noteq> currentEnv env"
  shows "POST env deps now req w =
           (json 200 [(''received'', JBool True), (''status'', JStr ''wrong_environment'')],
            admitted_world req now w)
       \<and> w_db (snd (POST env deps now req w)) = w_db w
       \<and> w_pushes (snd (POST env deps now req w)) = w_pushes w"
proof -
  have "dispatch env deps now ev (admitted_world req now w) =
      (Inr (json 200 [(''received'', JBool True), (''status'', JStr ''wrong_environment'')]),
       admitted_world req now w)"
    by (rule dispatch_wrong_environment[OF completed tag])
  with POST_verified[OF adm secret sg body verify] new
  show ?thesis by (simp add: admitted_world_def)
qed

text \<open>
  C3, amended. For a verified, not yet recorded \<^verbatim>\<open>checkout.session.completed\<close> event whose
  metadata has neither a project public id nor an invoice id, and whose environment tag is
  absent, empty or equal to the current environment: exactly one \<^verbatim>\<open>payment_events\<close> row
  is added, with status \<^verbatim>\<open>UNMATCHED\<close> and the event's id; invoices and projects are
  unchanged; no notification is sent; and the answer is 200 with \<^verbatim>\<open>status: 'unmatched'\<close>.
\<close>

theorem unmatched_checkout_recorded:
  assumes adm: "fst (checkRateLimit_route (client_ip req) now (w_limiter w))"
    and secret: "truthy (STRIPE_WEBHOOK_SECRET env)"
    and sg: "truthy (stripe_signature req)"
    and body: "raw_body req = Some rawBody"
    and verify: "verifyStripeWebhook deps rawBody (the (stripe_signature req))
                   (the (STRIPE_WEBHOOK_SECRET env)) = Inr ev"
    and new: "\<not> isEventProcessed (ev_id ev) (w_db w)"
    and completed: "ev_object ev = CheckoutSessionCompleted s"
    and no_project: "\<not> truthy (metadata_get s (PROJECT_PUBLIC_ID deps))"
    and no_invoice: "\<not> truthy (metadata_get s ''invoice_id'')"
    and same_env: "\<not> truthy (metadata_get s (ENVIRONMENT deps))
                   \<or> the (metadata_get s (ENVIRONMENT deps)) = currentEnv env"
  shows "fst (POST env deps now req w) =
           json 200 [(''received'', JBool True), (''status'', JStr ''unmatched'')]
       \<and> payment_events (w_db (snd (POST env deps now req w))) =
           payment_events (w_db w) @
             [\<lparr>row_provider = ''STRIPE'', row_eventId = ev_id ev,
               row_eventType = ''checkout.session.completed'', row_projectId = None,
               row_status = UNMATCHED,
               row_errorMsg = Some ''Missing project_public_id in session metadata'',
               row_metadata =
                 [(''sessionId'', JStr (cs_id s)),
                  (''customerEmail'', opt_jv (cs_customer_email s) JNil),
                  (''amountTotal'', opt_int_jv (cs_amount_total s))]\<rparr>]
       \<and> invoices (w_db (snd (POST env deps now req w))) = invoices (w_db w)
       \<and> projects (w_db (snd (POST env deps now req w))) = projects (w_db w)
       \<and> w_pushes (snd (POST env deps now req w)) = w_pushes w"
proof -
  let ?row = "\<lparr>row_provider = ''STRIPE'', row_eventId = ev_id ev,
               row_eventType = ''checkout.session.completed'', row_projectId = None,
               row_status = UNMATCHED,
               row_errorMsg = Some ''Missing project_public_id in session metadata'',
               row_metadata =
                 [(''sessionId'', JStr (cs_id s)),
                  (''customerEmail'', opt_jv (cs_customer_email s) JNil),
                  (''amountTotal'', opt_int_jv (cs_amount_total s))]\<rparr>"
  let ?w1 = "admitted_world req now w"
  have db1: "w_db ?w1 = w_db w" by (simp add: admitted_world_def)
  have create: "payment_events_create ?row (w_db ?w1) =
      Inr ((w_db w)\<lparr>payment_events := payment_events (w_db w) @ [?row]\<rparr>)"
    using new by (simp add: payment_events_create_def isEventProcessed_def db1)
  have "dispatch env deps now ev ?w1 =
      (Inr (json 200 [(''received'', JBool True), (''status'', JStr ''unmatched'')]),
       ?w1\<lparr>w_db := (w_db w)\<lparr>payment_events := payment_events (w_db w) @ [?row]\<rparr>\<rparr>)"
    using completed no_project no_invoice same_env create
    by (auto simp add: dispatch_def handleCheckoutSessionCompleted_def Let_def)
  with POST_verified[OF adm secret sg body verify] new
  show ?thesis by (simp add: admitted_world_def)
qed


lemma example_request_fields:
  "truthy (stripe_signature (example_request (Some ''good'') body))"
  "raw_body (example_request (Some ''good'') body) = Some body"
  by (simp_all add: example_request_def)

lemma example_new_event: "\<not> isEventProcessed (ev_id (example_event body)) (w_db empty_world)"
  by (simp add: isEventProcessed_def empty_world_def)

lemma example_currentEnv: "currentEnv example_env = ''development''"
  by (simp add: currentEnv_def example_env_def)

theorem wrong_environment_skipped_witness:
  "ev_object (example_event ''project-production'') =
     CheckoutSessionCompleted
       (example_session [''environment'' \<mapsto> ''production'', ''project_public_id'' \<mapsto> ''P-1''])
   \<and> currentEnv example_env = ''development''
   \<and> fst (POST example_env example_deps 0 (example_request (Some ''good'') ''project-production'')
        empty_world)
      = json 200 [(''received'', JBool True), (''status'', JStr ''wrong_environment'')]
   \<and> w_db (snd (POST example_env example_deps 0
        (example_request (Some ''good'') ''project-production'') empty_world)) = w_db empty_world
   \<and> w_pushes (snd (POST example_env example_deps 0
        (example_request (Some ''good'') ''project-production'') empty_world)) = w_pushes empty_world"
proof -
  let ?s = "example_session [''environment'' \<mapsto> ''production'', ''project_public_id'' \<mapsto> ''P-1'']"
  have ob: "ev_object (example_event ''project-production'') = CheckoutSessionCompleted ?s"
    by (simp add: example_event_def)
  have tag: "metadata_get ?s (ENVIRONMENT example_deps) = Some ''production''"
    by (simp add: metadata_get_def example_session_def example_deps_def)
  have ne: "''production'' \<noteq> ([] :: string)" "''production'' \<noteq> currentEnv example_env"
    by (simp_all add: example_currentEnv)
  from wrong_environment_skipped[OF example_admitted(1) example_secret example_request_fields
      example_verify_good example_new_event ob tag ne] ob example_currentEnv
  show ?thesis by (simp add: admitted_world_def)
qed

theorem unmatched_checkout_recorded_witness:
  "ev_object (example_event ''no-correlation'') = CheckoutSessionCompleted (example_session Map.empty)
   \<and> fst (POST example_env example_deps 0 (example_request (Some ''good'') ''no-correlation'')
        empty_world)
      = json 200 [(''received'', JBool True), (''status'', JStr ''unmatched'')]
   \<and> map row_status (payment_events (w_db (snd (POST example_env example_deps 0
        (example_request (Some ''good'') ''no-correlation'') empty_world)))) = [UNMATCHED]
   \<and> map row_eventId (payment_events (w_db (snd (POST example_env example_deps 0
        (example_request (Some ''good'') ''no-correlation'') empty_world)))) = [''evt_1'']
   \<and> w_pushes (snd (POST example_env example_deps 0
        (example_request (Some ''good'') ''no-correlation'') empty_world)) = []"
proof -
  let ?s = "example_session Map.empty"
  have ob: "ev_object (example_event ''no-correlation'') = CheckoutSessionCompleted ?s"
    by (simp add: example_event_def)
  have np: "\<not> truthy (metadata_get ?s (PROJECT_PUBLIC_ID example_deps))"
    and ni: "\<not> truthy (metadata_get ?s ''invoice_id'')"
    and ne: "\<not> truthy (metadata_get ?s (ENVIRONMENT example_deps))
             \<or> the (metadata_get ?s (ENVIRONMENT example_deps)) = currentEnv example_env"
    by (simp_all add: metadata_get_def example_session_def)
  have id: "ev_id (example_event ''no-correlation'') = ''evt_1''" by (simp add: example_event_def)
  have e: "payment_events (w_db empty_world) = []" "w_pushes empty_world = []"
    by (simp_all add: empty_world_def)
  from unmatched_checkout_recorded[OF example_admitted(1) example_secret example_request_fields
      example_verify_good example_new_event ob np ni ne] ob id e
  show ?thesis by (simp add: admitted_world_def)
qed

text \<open>
  C3, as stated, fails for an event without correlation identifier that carries the tag
  of another environment: it is acknowledged as \<^verbatim>\<open>wrong_environment\<close> and no
  \<^verbatim>\<open>UNMATCHED\<close> row is written.
\<close>

theorem unmatched_checkout_wrong_environment:
  "ev_object (example_event ''no-correlation-production'') =
     CheckoutSessionCompleted (example_session [''environment'' \<mapsto> ''production''])
   \<and> metadata_get (example_session [''environment'' \<mapsto> ''production''])
        (PROJECT_PUBLIC_ID example_deps) = None
   \<and> metadata_get (example_session [''environment'' \<mapsto> ''production'']) ''invoice_id'' = None
   \<and> fst (POST example_env example_deps 0
        (example_request (Some ''good'') ''no-correlation-production'') empty_world)
      = json 200 [(''received'', JBool True), (''status'', JStr ''wrong_environment'')]
   \<and> payment_events (w_db (snd (POST example_env example_deps 0
        (example_request (Some ''good'') ''no-correlation-production'') empty_world))) = []"
proof -
  let ?s = "example_session [''environment'' \<mapsto> ''production'']"
  let ?req = "example_request (Some ''good'') ''no-correlation-production''"
  have ob: "ev_object (example_event ''no-correlation-production'') = CheckoutSessionCompleted ?s"
    by (simp add: example_event_def)
  have md: "metadata_get ?s (PROJECT_PUBLIC_ID example_deps) = None"
    "metadata_get ?s ''invoice_id'' = None"
    by (simp_all add: metadata_get_def example_session_def example_deps_def)
  have tag: "metadata_get ?s (ENVIRONMENT example_deps) = Some ''production''"
    by (simp add: metadata_get_def example_session_def example_deps_def)
  have ne: "''production'' \<noteq> ([] :: string)" "''production'' \<noteq> currentEnv example_env"
    by (simp_all add: example_currentEnv)
  have d: "dispatch example_env example_deps 0 (example_event ''no-correlation-production'')
             (admitted_world ?req 0 empty_world) =
      (Inr (json 200 [(''received'', JBool True), (''status'', JStr ''wrong_environment'')]),
       admitted_world ?req 0 empty_world)"
    by (rule dispatch_wrong_environment[OF ob tag ne])
  have e: "payment_events (w_db empty_world) = []" by (simp add: empty_world_def)
  from POST_verified[OF example_admitted(1) example_secret example_request_fields
      example_verify_good, of "''no-correlation-production''"] example_new_event d
  have "POST example_env example_deps 0 ?req empty_world =
      (json 200 [(''received'', JBool True), (''status'', JStr ''wrong_environment'')],
       admitted_world ?req 0 empty_world)"
    by simp
  with ob md e show ?thesis by (simp add: admitted_world_def)
qed

end
